theory Spec2Isabelle
  imports Main "HOL-Library.Sublist"
begin

section \<open>Strings and arrays of the host language\<close>

text \<open>
  The program (\<^verbatim>\<open>git-log-ai.ts\<close>) is TypeScript. Its strings are sequences of UTF-16 code
  units; here a \<^typ>\<open>char\<close> stands for one code unit below 256 (the Latin-1 range), so
  \<^const>\<open>length\<close> counts what \<^verbatim>\<open>.length\<close> counts on such strings.
\<close>

definition isWhiteSpace :: "char \<Rightarrow> bool" where
  \<comment> \<open>the code units below 256 that \<^verbatim>\<open>trim()\<close> strips and \<^verbatim>\<open>\s\<close> matches:
      TAB, LF, VT, FF, CR, SPACE, NBSP\<close>
  "isWhiteSpace c =
     (c \<in> set [CHR 0x09, CHR 0x0A, CHR 0x0B, CHR 0x0C, CHR 0x0D, CHR 0x20, CHR 0xA0])"

definition trim :: "string \<Rightarrow> string" where
  "trim s = rev (dropWhile isWhiteSpace (rev (dropWhile isWhiteSpace s)))"

definition toLowerChar :: "char \<Rightarrow> char" where
  \<comment> \<open>A..Z and the Latin-1 capitals (0xC0..0xDE without the multiplication sign 0xD7)\<close>
  "toLowerChar c =
     (let n = (of_char c :: nat)
      in if (65 \<le> n \<and> n \<le> 90) \<or> (192 \<le> n \<and> n \<le> 222 \<and> n \<noteq> 215)
         then char_of (n + 32) else c)"

definition toLowerCase :: "string \<Rightarrow> string" where
  "toLowerCase s = map toLowerChar s"

abbreviation TAB :: char where "TAB \<equiv> CHR 0x09"
abbreviation LF :: char where "LF \<equiv> CHR 0x0A"

fun split :: "char \<Rightarrow> string \<Rightarrow> string list" where
  \<comment> \<open>\<^verbatim>\<open>s.split(sep)\<close> for a one-character separator. The result is never the empty
      array, so the first branch of the \<open>case\<close> is not reached.\<close>
  "split sep [] = [[]]"
| "split sep (c # cs) =
     (if c = sep then [] # split sep cs
      else (case split sep cs of [] \<Rightarrow> [[c]] | w # ws \<Rightarrow> (c # w) # ws))"

fun join :: "string \<Rightarrow> string list \<Rightarrow> string" where
  \<comment> \<open>\<^verbatim>\<open>xs.join(sep)\<close> on an array of strings\<close>
  "join sep [] = []"
| "join sep [x] = x"
| "join sep (x # y # ys) = x @ sep @ join sep (y # ys)"

definition slice :: "nat \<Rightarrow> nat \<Rightarrow> 'a list \<Rightarrow> 'a list" where
  \<comment> \<open>\<^verbatim>\<open>xs.slice(a, b)\<close> for non-negative \<open>a\<close> and \<open>b\<close>\<close>
  "slice a b xs = take (b - a) (drop a xs)"

definition Set_add :: "'a list \<Rightarrow> 'a \<Rightarrow> 'a list" where
  \<comment> \<open>a \<^verbatim>\<open>Set\<close> is kept as the list of its members in insertion order;
      adding a member that is present changes nothing\<close>
  "Set_add s x = (if x \<in> set s then s else s @ [x])"

definition new_Set :: "'a list \<Rightarrow> 'a list" where
  \<comment> \<open>\<^verbatim>\<open>[...new Set(xs)]\<close>: the members are added in array order and
      read back in insertion order\<close>
  "new_Set xs = foldl Set_add [] xs"


section \<open>Commit filter: \<^verbatim>\<open>fetchGitLog\<close>\<close>

record CommitInfo =
  hash :: string
  date :: string
  author :: string
  email :: string
  subject :: string
  body :: string

fun destructure ::
  "string list \<Rightarrow>
   string option \<times> string option \<times> string option \<times> string option \<times> string option \<times> string list"
where
  \<comment> \<open>\<^verbatim>\<open>const [hash, date, name, email, subject, ...bodyParts] = parts\<close>;
      \<open>None\<close> is \<^verbatim>\<open>undefined\<close>\<close>
  "destructure (a # b # c # d # e # bodyParts) = (Some a, Some b, Some c, Some d, Some e, bodyParts)"
| "destructure [a, b, c, d] = (Some a, Some b, Some c, Some d, None, [])"
| "destructure [a, b, c] = (Some a, Some b, Some c, None, None, [])"
| "destructure [a, b] = (Some a, Some b, None, None, None, [])"
| "destructure [a] = (Some a, None, None, None, None, [])"
| "destructure [] = (None, None, None, None, None, [])"

definition orEmpty :: "string option \<Rightarrow> string" where
  \<comment> \<open>\<^verbatim>\<open>x || ''\<close>: \<^verbatim>\<open>undefined\<close> and the empty string are falsy\<close>
  "orEmpty x = (case x of None \<Rightarrow> [] | Some s \<Rightarrow> if s = [] then [] else s)"

definition parseLine :: "string \<Rightarrow> CommitInfo" where
  \<comment> \<open>the callback of \<^verbatim>\<open>.map\<close>\<close>
  "parseLine line =
     (case destructure (split TAB line) of
        (hash', date', name, email', subject', bodyParts) \<Rightarrow>
          let body' = trim (join [TAB] bodyParts)
          in \<lparr> hash = orEmpty hash', date = orEmpty date', author = orEmpty name,
               email = orEmpty email', subject = orEmpty subject',
               body = orEmpty (Some body') \<rparr>)"

text \<open>
  Every pattern of the source has the form \<^verbatim>\<open>^...$\<close> with literal characters and
  \<^verbatim>\<open>\s*\<close> between the anchors, and is compiled without flags: \<^verbatim>\<open>test\<close> succeeds
  exactly when the pattern matches the whole string. A pattern is kept as the list of
  its items between the two anchors.
\<close>

datatype regex_item = Lit char | WhiteSpaceStar

fun test :: "regex_item list \<Rightarrow> string \<Rightarrow> bool" where
  "test [] s = (s = [])"
| "test (Lit c # ps) [] = False"
| "test (Lit c # ps) (x # xs) = (x = c \<and> test ps xs)"
| "test (WhiteSpaceStar # ps) [] = test ps []"
| "test (WhiteSpaceStar # ps) (x # xs) =
     ((isWhiteSpace x \<and> test (WhiteSpaceStar # ps) xs) \<or> test ps (x # xs))"

definition meaninglessPatterns :: "regex_item list list" where
  "meaninglessPatterns =
     [ [],
       [WhiteSpaceStar],
       [Lit (CHR ''*''), WhiteSpaceStar],
       map Lit ''feat:'' @ [WhiteSpaceStar],
       map Lit ''fix:'' @ [WhiteSpaceStar],
       map Lit ''chore:'' @ [WhiteSpaceStar],
       map Lit ''docs:'' @ [WhiteSpaceStar],
       map Lit ''style:'' @ [WhiteSpaceStar],
       map Lit ''refactor:'' @ [WhiteSpaceStar],
       map Lit ''test:'' @ [WhiteSpaceStar] ]"

definition keepCommitWith :: "regex_item list list \<Rightarrow> CommitInfo \<Rightarrow> bool" where
  \<comment> \<open>the callback of the second \<^verbatim>\<open>.filter\<close>, with the pattern table as a parameter\<close>
  "keepCommitWith patterns commit =
     (if hash commit = [] \<or> date commit = [] \<or> author commit = [] \<or> subject commit = []
      then False
      else if length (trim (subject commit)) < 3 then False
      else if trim (author commit) = [] \<or> trim (email commit) = [] then False
      else
        let subject' = trim (toLowerCase (subject commit));
            isMeaningless = list_ex (\<lambda>pattern. test pattern subject') patterns
        in if isMeaningless then False else True)"

definition keepCommit :: "CommitInfo \<Rightarrow> bool" where
  "keepCommit = keepCommitWith meaninglessPatterns"

definition nonBlank :: "string \<Rightarrow> bool" where
  \<comment> \<open>the callback of the first \<^verbatim>\<open>.filter\<close>: \<^verbatim>\<open>line.trim()\<close> is truthy\<close>
  "nonBlank line = (trim line \<noteq> [])"

definition fetchGitLogWith :: "regex_item list list \<Rightarrow> string \<Rightarrow> CommitInfo list" where
  \<comment> \<open>the same chain as \<open>fetchGitLog\<close> below, over a given pattern table\<close>
  "fetchGitLogWith patterns output =
     filter (keepCommitWith patterns) (map parseLine (filter nonBlank (split LF output)))"

definition fetchGitLog :: "string \<Rightarrow> CommitInfo list" where
  \<comment> \<open>the expression that \<^verbatim>\<open>fetchGitLog\<close> returns, as a function of \<^verbatim>\<open>output\<close>, the text
      that \<^verbatim>\<open>runGitCommand\<close> returned; when that call throws, nothing is filtered\<close>
  "fetchGitLog output =
     filter keepCommit (map parseLine (filter nonBlank (split LF output)))"


text \<open>
  The filter's postcondition in the specification's words: a subject is meaningless when
  it is empty, whitespace only, a bare asterisk, or a bare conventional-commit prefix,
  each possibly followed by whitespace; a line is non-blank when it holds a character
  that is not whitespace.
\<close>

definition conventionalPrefixes :: "string list" where
  "conventionalPrefixes =
     [''feat:'', ''fix:'', ''chore:'', ''docs:'', ''style:'', ''refactor:'', ''test:'']"

definition bareOf :: "string \<Rightarrow> string \<Rightarrow> bool" where
  "bareOf p s = (take (length p) s = p \<and> list_all isWhiteSpace (drop (length p) s))"

definition meaninglessSubject :: "string \<Rightarrow> bool" where
  "meaninglessSubject s =
     (s = [] \<or> list_all isWhiteSpace s \<or> bareOf ''*'' s
      \<or> list_ex (\<lambda>p. bareOf p s) conventionalPrefixes)"

definition nonBlankLines :: "string \<Rightarrow> string list" where
  "nonBlankLines text = filter (list_ex (\<lambda>c. \<not> isWhiteSpace c)) (split LF text)"

text \<open>
  The filter restricted to the seven bare-prefix patterns, to be compared with the
  filter over all ten.
\<close>

definition prefixPatterns :: "regex_item list list" where
  "prefixPatterns =
     [ map Lit ''feat:'' @ [WhiteSpaceStar],
       map Lit ''fix:'' @ [WhiteSpaceStar],
       map Lit ''chore:'' @ [WhiteSpaceStar],
       map Lit ''docs:'' @ [WhiteSpaceStar],
       map Lit ''style:'' @ [WhiteSpaceStar],
       map Lit ''refactor:'' @ [WhiteSpaceStar],
       map Lit ''test:'' @ [WhiteSpaceStar] ]"

text \<open>
  Writing records back in the line format of the log query: six fields joined by TAB,
  records joined by LF.
\<close>

definition serializeCommit :: "CommitInfo \<Rightarrow> string" where
  "serializeCommit c = join [TAB] [hash c, date c, author c, email c, subject c, body c]"

definition reserialize :: "CommitInfo list \<Rightarrow> string" where
  "reserialize cs = join [LF] (map serializeCommit cs)"

definition sampleLog :: string where
  "sampleLog =
     ''a1b2c3'' @ [TAB] @ ''2023-06-01'' @ [TAB] @ ''Jane Doe'' @ [TAB] @ ''jane@x.com''
       @ [TAB] @ ''Add retry logic to uploader'' @ [TAB] @ ''Handles transient 5xx errors''
     @ [LF] @ ''   ''
     @ [LF] @ ''a1b2c3'' @ [TAB] @ ''2023-06-01'' @ [TAB] @ ''Jane Doe'' @ [TAB]
       @ ''jane@x.com'' @ [TAB] @ ''fix: '' @ [TAB]
     @ [LF] @ ''b2c3d4'' @ [TAB] @ ''2023-05-30'' @ [TAB] @ ''Jane Doe'' @ [TAB]
       @ ''jane@x.com'' @ [TAB] @ ''Fix login redirect''"

definition sampleCommits :: "CommitInfo list" where
  "sampleCommits =
     [ \<lparr> hash = ''a1b2c3'', date = ''2023-06-01'', author = ''Jane Doe'',
         email = ''jane@x.com'', subject = ''Add retry logic to uploader'',
         body = ''Handles transient 5xx errors'' \<rparr>,
       \<lparr> hash = ''b2c3d4'', date = ''2023-05-30'', author = ''Jane Doe'',
         email = ''jane@x.com'', subject = ''Fix login redirect'', body = [] \<rparr> ]"


section \<open>Report merger: \<^verbatim>\<open>mergeBatchAnalyses\<close>\<close>

record ResumeAnalysis =
  summary :: string
  keyAchievements :: "string list"
  technicalSkills :: "string list"
  businessImpact :: "string list"
  problemSolving :: "string list"
  leadership :: "string list"

definition push_all :: "ResumeAnalysis \<Rightarrow> ResumeAnalysis \<Rightarrow> ResumeAnalysis" where
  \<comment> \<open>the body of the \<^verbatim>\<open>forEach\<close>: five \<^verbatim>\<open>push(...)\<close> calls\<close>
  "push_all merged analysis =
     merged\<lparr> keyAchievements := keyAchievements merged @ keyAchievements analysis,
             technicalSkills := technicalSkills merged @ technicalSkills analysis,
             businessImpact := businessImpact merged @ businessImpact analysis,
             problemSolving := problemSolving merged @ problemSolving analysis,
             leadership := leadership merged @ leadership analysis \<rparr>"

definition mergeBatchAnalyses :: "ResumeAnalysis list \<Rightarrow> ResumeAnalysis" where
  "mergeBatchAnalyses analyses =
     (let merged0 = \<lparr> summary = join '' '' (map summary analyses),
                      keyAchievements = [], technicalSkills = [], businessImpact = [],
                      problemSolving = [], leadership = [] \<rparr>;
          merged = foldl push_all merged0 analyses
      in merged\<lparr> keyAchievements := slice 0 5 (new_Set (keyAchievements merged)),
                 technicalSkills := slice 0 5 (new_Set (technicalSkills merged)),
                 businessImpact := slice 0 5 (new_Set (businessImpact merged)),
                 problemSolving := slice 0 5 (new_Set (problemSolving merged)),
                 leadership := slice 0 5 (new_Set (leadership merged)) \<rparr>)"

text \<open>
  The merge as the specification words it: pool the lists in batch order, keep the first
  occurrence of every string, keep the first five.
\<close>

fun dedupFirstSeen :: "'a list \<Rightarrow> 'a list" where
  "dedupFirstSeen [] = []"
| "dedupFirstSeen (x # xs) = x # dedupFirstSeen (removeAll x xs)"

definition mergedField :: "(ResumeAnalysis \<Rightarrow> string list) \<Rightarrow> ResumeAnalysis list \<Rightarrow> string list" where
  "mergedField f partials = take 5 (dedupFirstSeen (concat (map f partials)))"


definition reportA :: ResumeAnalysis where
  "reportA = \<lparr> summary = ''Built the uploader.'',
       keyAchievements = [''a1'', ''a2'', ''a3'', ''a4'', ''a5''],
       technicalSkills = [''TypeScript'', ''Git''], businessImpact = [], problemSolving = [],
       leadership = [] \<rparr>"

definition reportB :: ResumeAnalysis where
  "reportB = \<lparr> summary = ''Fixed the login flow.'',
       keyAchievements = [''b1''],
       technicalSkills = [''Node'', ''TypeScript''], businessImpact = [], problemSolving = [],
       leadership = [] \<rparr>"


section \<open>Batching: the first loop of \<^verbatim>\<open>analyzeCommitsWithGPT\<close>\<close>

definition batchSize :: nat where
  "batchSize = 20"

function batchLoop :: "nat \<Rightarrow> 'a list \<Rightarrow> 'a list list \<Rightarrow> 'a list list" where
  "batchLoop i commits batches =
     (if i < length commits
      then batchLoop (i + batchSize) commits (batches @ [slice i (i + batchSize) commits])
      else batches)"
  by pat_completeness auto
termination
  by (relation "measure (\<lambda>(i, commits, batches). length commits - i)")
     (auto simp: batchSize_def)

declare batchLoop.simps [simp del]

definition makeBatches :: "'a list \<Rightarrow> 'a list list" where
  "makeBatches commits = batchLoop 0 commits []"


section \<open>Values at run time\<close>

text \<open>
  \<^verbatim>\<open>JSON.parse\<close> returns a value of any shape, whatever type the program declares for
  it. Such a value is a \<open>json\<close>: a number is kept as the text that string conversion
  gives it, an object as its own properties in enumeration order (keys distinct).
  \<open>None\<close> of type \<open>json option\<close> is \<^verbatim>\<open>undefined\<close>.
\<close>

datatype json =
    JNull
  | JBool bool
  | JNum string
  | JStr string
  | JArr "json list"
  | JObj "(string \<times> json) list"

datatype error =
    MissingApiKey
  | NoResponse
  | SyntaxError
  | ServiceError string
  | ExecError
  | TypeError
  | BatchFailed nat error

text \<open>
  The thrown values: \<open>MissingApiKey\<close> (line 265), \<open>NoResponse\<close> (line 381),
  \<open>SyntaxError\<close> from \<^verbatim>\<open>JSON.parse\<close>, \<open>ServiceError\<close> from the completion call,
  \<open>ExecError\<close> from \<^verbatim>\<open>execSync\<close>, \<open>TypeError\<close> from reading a property of
  \<^verbatim>\<open>null\<close>, spreading a value that is not iterable or converting to a string a value
  that has no conversion, and \<open>BatchFailed\<close>, the error of line 386 that carries the batch
  number and the error it caught.
\<close>

text \<open>
  Reading a property of a value other than \<^verbatim>\<open>null\<close>, for the property names this
  program reads (\<^verbatim>\<open>name\<close>, \<^verbatim>\<open>summary\<close>, ...): only an object can have them.
\<close>

definition getProp :: "json \<Rightarrow> string \<Rightarrow> json option" where
  "getProp v key = (case v of JObj entries \<Rightarrow> map_of entries key | _ \<Rightarrow> None)"

text \<open>Truthiness and \<^verbatim>\<open>Object.keys\<close>.\<close>

fun truthy :: "json option \<Rightarrow> bool" where
  "truthy None = False"
| "truthy (Some JNull) = False"
| "truthy (Some (JBool b)) = b"
| "truthy (Some (JNum t)) = (t \<noteq> ''0'')"
| "truthy (Some (JStr s)) = (s \<noteq> [])"
| "truthy (Some (JArr xs)) = True"
| "truthy (Some (JObj entries)) = True"

text \<open>
  String conversion of a parsed value. An object is converted by the \<^verbatim>\<open>toString\<close> it
  inherits, unless it has a property of that name of its own: a parsed property is never
  a function, the inherited \<^verbatim>\<open>valueOf\<close> gives the object back, and the conversion throws
  a \<^verbatim>\<open>TypeError\<close>. An array is converted by joining its elements with a comma, the
  elements converted in turn (\<^verbatim>\<open>null\<close> as the empty string), so it throws when one of them
  does.
\<close>

fun toString :: "json \<Rightarrow> error + string"
  and elementStrings :: "json list \<Rightarrow> error + string list" where
  "toString JNull = Inr ''null''"
| "toString (JBool b) = Inr (if b then ''true'' else ''false'')"
| "toString (JNum t) = Inr t"
| "toString (JStr s) = Inr s"
| "toString (JArr xs) =
     (case elementStrings xs of Inl e \<Rightarrow> Inl e | Inr ss \<Rightarrow> Inr (join '','' ss))"
| "toString (JObj entries) =
     (if ''toString'' \<in> set (map fst entries) then Inl TypeError
      else Inr ''[object Object]'')"
| "elementStrings [] = Inr []"
| "elementStrings (x # xs) =
     (case (if x = JNull then Inr [] else toString x) of
        Inl e \<Rightarrow> Inl e
      | Inr s0 \<Rightarrow>
          (case elementStrings xs of Inl e \<Rightarrow> Inl e | Inr ss \<Rightarrow> Inr (s0 # ss)))"

function decimal :: "nat \<Rightarrow> string" where
  "decimal n =
     (if n < 10 then [char_of (48 + n)] else decimal (n div 10) @ [char_of (48 + n mod 10)])"
  by pat_completeness auto
termination
  by (relation "measure id") auto

declare decimal.simps [simp del]

fun Object_keys :: "json \<Rightarrow> string list" where
  "Object_keys (JObj entries) = map fst entries"
| "Object_keys (JArr xs) = map decimal [0 ..< length xs]"
| "Object_keys (JStr s) = map decimal [0 ..< length s]"
| "Object_keys v = []"


text \<open>
  When a parsed value can be converted to a string: no object with a \<^verbatim>\<open>toString\<close>
  property of its own stands at its top or among the elements of its arrays.
\<close>

fun convertible :: "json \<Rightarrow> bool" where
  "convertible (JObj entries) = (''toString'' \<notin> set (map fst entries))"
| "convertible (JArr xs) = list_all convertible xs"
| "convertible v = True"

definition cannotRender :: "json \<Rightarrow> string \<Rightarrow> bool" where
  \<comment> \<open>the property is truthy, so that it is the value rendered, and cannot be converted\<close>
  "cannotRender v key =
     (case getProp v key of None \<Rightarrow> False | Some x \<Rightarrow> truthy (Some x) \<and> \<not> convertible x)"


section \<open>Project context builder: \<^verbatim>\<open>getProjectContext\<close>\<close>

text \<open>
  The literal texts of lines 244 to 247 and 255 lie outside the character range of this
  embedding; they are the fields of a record given as a parameter. What the program
  reads from outside is a record too: the API key of the process environment, whether
  \<^verbatim>\<open>package.json\<close> exists, what \<^verbatim>\<open>cat package.json\<close> prints (\<open>None\<close>: the command
  fails), the parser \<^verbatim>\<open>JSON.parse\<close> (\<open>None\<close>: it throws), and the completion service.
\<close>

record literals =
  labelName :: string
  labelDescription :: string
  labelDependencies :: string
  labelDevDependencies :: string
  fallbackText :: string

record prompt =
  promptContext :: string
  promptBatchNum :: nat
  promptTotalBatches :: nat
  promptCommits :: string

text \<open>
  A request to the service is the fixed prompt text with four values spliced in; it is
  kept as these four values. A call either throws (\<open>Rejected\<close>, with the message) or
  gives the content of the first choice, \<open>None\<close> when there is none.
\<close>

datatype completion = Rejected string | Content "string option"

record environment =
  OPENAI_API_KEY :: "string option"
  packageJsonExists :: bool
  catPackageJson :: "string option"
  JSON_parse :: "string \<Rightarrow> json option"
  createCompletion :: "prompt \<Rightarrow> completion"

definition orText :: "json option \<Rightarrow> string \<Rightarrow> error + string" where
  \<comment> \<open>\<^verbatim>\<open>${v || d}\<close> in a template literal: the chosen value is converted to a string\<close>
  "orText v d = (case v of None \<Rightarrow> Inr d | Some x \<Rightarrow> if truthy v then toString x else Inr d)"

definition keysOrEmpty :: "json option \<Rightarrow> string list" where
  "keysOrEmpty v = (case v of None \<Rightarrow> [] | Some x \<Rightarrow> if truthy v then Object_keys x else [])"

definition renderContext :: "literals \<Rightarrow> json \<Rightarrow> error + string" where
  \<comment> \<open>the template literal of lines 244 to 247, its substitutions evaluated in order;
      reading \<^verbatim>\<open>packageJson.name\<close> throws when the parsed value is \<^verbatim>\<open>null\<close>\<close>
  "renderContext lit packageJson =
     (if packageJson = JNull then Inl TypeError
      else
        (case orText (getProp packageJson ''name'') ''Unknown'' of
           Inl e \<Rightarrow> Inl e
         | Inr name \<Rightarrow>
             (case orText (getProp packageJson ''description'') ''No description'' of
                Inl e \<Rightarrow> Inl e
              | Inr description \<Rightarrow>
                  Inr (labelName lit @ name @ [LF]
                       @ labelDescription lit @ description @ [LF]
                       @ labelDependencies lit
                       @ join '', '' (slice 0 10 (keysOrEmpty (getProp packageJson ''dependencies'')))
                       @ [LF]
                       @ labelDevDependencies lit
                       @ join '', ''
                           (slice 0 5 (keysOrEmpty (getProp packageJson ''devDependencies'')))))))"

text \<open>
  The \<^verbatim>\<open>try\<close> block: \<open>Inl\<close> is a throw, \<open>Inr (Some context)\<close> the \<^verbatim>\<open>return\<close> inside
  the block, \<open>Inr None\<close> leaving the block without returning.
\<close>

definition tryProjectContext :: "literals \<Rightarrow> environment \<Rightarrow> error + string option" where
  "tryProjectContext lit env =
     (if packageJsonExists env then
        (case catPackageJson env of
           None \<Rightarrow> Inl ExecError
         | Some text \<Rightarrow>
             (case JSON_parse env text of
                None \<Rightarrow> Inl SyntaxError
              | Some packageJson \<Rightarrow>
                  (case renderContext lit packageJson of
                     Inl e \<Rightarrow> Inl e
                   | Inr context \<Rightarrow> Inr (Some context))))
      else Inr None)"

definition getProjectContext :: "literals \<Rightarrow> environment \<Rightarrow> error + string" where
  "getProjectContext lit env =
     (case tryProjectContext lit env of
        Inr (Some context) \<Rightarrow> Inr context
      | Inr None \<Rightarrow> Inr (fallbackText lit)
      | Inl e \<Rightarrow> Inr (fallbackText lit))"


section \<open>Batch analyzer: \<^verbatim>\<open>analyzeBatch\<close> and \<^verbatim>\<open>analyzeCommitsWithGPT\<close>\<close>

definition commitText :: "CommitInfo \<Rightarrow> string" where
  "commitText commit =
     (let subject' = take 100 (subject commit);
          body' = (if body commit \<noteq> [] then take 150 (body commit) else [])
      in ''['' @ date commit @ ''] '' @ subject'
         @ (if body' \<noteq> [] then [LF] @ ''  '' @ body' else []))"

definition makePrompt :: "CommitInfo list \<Rightarrow> nat \<Rightarrow> nat \<Rightarrow> string \<Rightarrow> prompt" where
  "makePrompt batch batchNum totalBatches projectContext =
     \<lparr> promptContext = projectContext, promptBatchNum = batchNum,
       promptTotalBatches = totalBatches,
       promptCommits = join [LF, LF] (map commitText batch) \<rparr>"

text \<open>The \<^verbatim>\<open>try\<close> block of \<^verbatim>\<open>analyzeBatch\<close>, then the function with its \<^verbatim>\<open>catch\<close>.\<close>

definition tryBatch :: "environment \<Rightarrow> prompt \<Rightarrow> error + json" where
  "tryBatch env p =
     (case createCompletion env p of
        Rejected message \<Rightarrow> Inl (ServiceError message)
      | Content response \<Rightarrow>
          (case response of
             None \<Rightarrow> Inl NoResponse
           | Some text \<Rightarrow>
               if text = [] then Inl NoResponse
               else (case JSON_parse env text of
                       None \<Rightarrow> Inl SyntaxError
                     | Some v \<Rightarrow> Inr v)))"

definition analyzeBatch ::
  "environment \<Rightarrow> CommitInfo list \<Rightarrow> nat \<Rightarrow> nat \<Rightarrow> string \<Rightarrow> error + json" where
  "analyzeBatch env batch batchNum totalBatches projectContext =
     (case tryBatch env (makePrompt batch batchNum totalBatches projectContext) of
        Inl e \<Rightarrow> Inl (BatchFailed batchNum e)
      | Inr v \<Rightarrow> Inr v)"

function analyzeLoop ::
  "environment \<Rightarrow> string \<Rightarrow> CommitInfo list list \<Rightarrow> nat \<Rightarrow> json list \<Rightarrow> error + json list"
where
  "analyzeLoop env projectContext batches i batchAnalyses =
     (if i < length batches then
        (case analyzeBatch env (batches ! i) (i + 1) (length batches) projectContext of
           Inl e \<Rightarrow> Inl e
         | Inr batchAnalysis \<Rightarrow>
             analyzeLoop env projectContext batches (i + 1) (batchAnalyses @ [batchAnalysis]))
      else Inr batchAnalyses)"
  by pat_completeness auto
termination
  by (relation "measure (\<lambda>(env, projectContext, batches, i, batchAnalyses). length batches - i)")
     auto

declare analyzeLoop.simps [simp del]


text \<open>
  \<^verbatim>\<open>mergeBatchAnalyses\<close> as it runs on whatever the batches returned: reading
  \<^verbatim>\<open>a.summary\<close> throws on \<^verbatim>\<open>null\<close>, \<^verbatim>\<open>push(...x)\<close> throws unless \<open>x\<close> is an array or
  a string, \<^verbatim>\<open>join\<close> turns \<^verbatim>\<open>undefined\<close> and \<^verbatim>\<open>null\<close> into the empty string and
  throws when another element cannot be converted to a string, and a \<^verbatim>\<open>Set\<close> holds two
  arrays or objects of the pooled list as different members.
\<close>

record MergedValue =
  summaryValue :: string
  keyAchievementsValue :: "json list"
  technicalSkillsValue :: "json list"
  businessImpactValue :: "json list"
  problemSolvingValue :: "json list"
  leadershipValue :: "json list"

fun spread :: "json option \<Rightarrow> error + json list" where
  "spread (Some (JArr xs)) = Inr xs"
| "spread (Some (JStr s)) = Inr (map (\<lambda>c. JStr [c]) s)"
| "spread v = Inl TypeError"

fun sameValueZero :: "json \<Rightarrow> json \<Rightarrow> bool" where
  "sameValueZero (JArr xs) y = False"
| "sameValueZero (JObj entries) y = False"
| "sameValueZero x y = (x = y)"

definition Set_addValue :: "json list \<Rightarrow> json \<Rightarrow> json list" where
  "Set_addValue s x = (if list_ex (\<lambda>y. sameValueZero y x) s then s else s @ [x])"

definition new_SetValue :: "json list \<Rightarrow> json list" where
  "new_SetValue xs = foldl Set_addValue [] xs"

fun optionStrings :: "json option list \<Rightarrow> error + string list" where
  \<comment> \<open>the elements of an array as \<^verbatim>\<open>join\<close> converts them, in order\<close>
  "optionStrings [] = Inr []"
| "optionStrings (v # vs) =
     (case (case v of None \<Rightarrow> Inr [] | Some x \<Rightarrow> if x = JNull then Inr [] else toString x) of
        Inl e \<Rightarrow> Inl e
      | Inr s0 \<Rightarrow>
          (case optionStrings vs of Inl e \<Rightarrow> Inl e | Inr ss \<Rightarrow> Inr (s0 # ss)))"

definition joinValues :: "string \<Rightarrow> json option list \<Rightarrow> error + string" where
  "joinValues sep vs =
     (case optionStrings vs of Inl e \<Rightarrow> Inl e | Inr ss \<Rightarrow> Inr (join sep ss))"

fun summaries :: "json list \<Rightarrow> error + json option list" where
  "summaries [] = Inr []"
| "summaries (a # as) =
     (if a = JNull then Inl TypeError
      else (case summaries as of Inl e \<Rightarrow> Inl e | Inr vs \<Rightarrow> Inr (getProp a ''summary'' # vs)))"

definition pushValues :: "MergedValue \<Rightarrow> json \<Rightarrow> error + MergedValue" where
  "pushValues merged analysis =
     (case spread (getProp analysis ''keyAchievements'') of Inl e \<Rightarrow> Inl e | Inr ka \<Rightarrow>
      case spread (getProp analysis ''technicalSkills'') of Inl e \<Rightarrow> Inl e | Inr ts \<Rightarrow>
      case spread (getProp analysis ''businessImpact'') of Inl e \<Rightarrow> Inl e | Inr bi \<Rightarrow>
      case spread (getProp analysis ''problemSolving'') of Inl e \<Rightarrow> Inl e | Inr ps \<Rightarrow>
      case spread (getProp analysis ''leadership'') of Inl e \<Rightarrow> Inl e | Inr ld \<Rightarrow>
        Inr (merged\<lparr> keyAchievementsValue := keyAchievementsValue merged @ ka,
                      technicalSkillsValue := technicalSkillsValue merged @ ts,
                      businessImpactValue := businessImpactValue merged @ bi,
                      problemSolvingValue := problemSolvingValue merged @ ps,
                      leadershipValue := leadershipValue merged @ ld \<rparr>))"

fun forEachPush :: "MergedValue \<Rightarrow> json list \<Rightarrow> error + MergedValue" where
  "forEachPush merged [] = Inr merged"
| "forEachPush merged (a # as) =
     (case pushValues merged a of Inl e \<Rightarrow> Inl e | Inr merged' \<Rightarrow> forEachPush merged' as)"

definition mergeBatchValues :: "json list \<Rightarrow> error + MergedValue" where
  "mergeBatchValues analyses =
     (case summaries analyses of
        Inl e \<Rightarrow> Inl e
      | Inr vs \<Rightarrow>
          (case joinValues '' '' vs of
             Inl e \<Rightarrow> Inl e
           | Inr joined \<Rightarrow>
               (case forEachPush \<lparr> summaryValue = joined,
                        keyAchievementsValue = [], technicalSkillsValue = [],
                        businessImpactValue = [], problemSolvingValue = [],
                        leadershipValue = [] \<rparr> analyses of
                  Inl e \<Rightarrow> Inl e
                | Inr merged \<Rightarrow>
                    Inr (merged\<lparr>
                      keyAchievementsValue := slice 0 5 (new_SetValue (keyAchievementsValue merged)),
                      technicalSkillsValue := slice 0 5 (new_SetValue (technicalSkillsValue merged)),
                      businessImpactValue := slice 0 5 (new_SetValue (businessImpactValue merged)),
                      problemSolvingValue := slice 0 5 (new_SetValue (problemSolvingValue merged)),
                      leadershipValue := slice 0 5 (new_SetValue (leadershipValue merged)) \<rparr>))))"

definition analyzeCommitsWithGPT ::
  "literals \<Rightarrow> environment \<Rightarrow> CommitInfo list \<Rightarrow> error + MergedValue" where
  "analyzeCommitsWithGPT lit env commits =
     (if OPENAI_API_KEY env = None \<or> OPENAI_API_KEY env = Some [] then Inl MissingApiKey
      else
        (case getProjectContext lit env of
           Inl e \<Rightarrow> Inl e
         | Inr projectContext \<Rightarrow>
             (case analyzeLoop env projectContext (makeBatches commits) 0 [] of
                Inl e \<Rightarrow> Inl e
              | Inr batchAnalyses \<Rightarrow> mergeBatchValues batchAnalyses)))"

text \<open>
  A report under its declared type as a run-time value, and the response shape of the
  specification: an object with exactly the six fields, the summary a string, the other
  five arrays of strings.
\<close>

definition toJson :: "ResumeAnalysis \<Rightarrow> json" where
  "toJson r = JObj [(''summary'', JStr (summary r)),
     (''keyAchievements'', JArr (map JStr (keyAchievements r))),
     (''technicalSkills'', JArr (map JStr (technicalSkills r))),
     (''businessImpact'', JArr (map JStr (businessImpact r))),
     (''problemSolving'', JArr (map JStr (problemSolving r))),
     (''leadership'', JArr (map JStr (leadership r)))]"

definition toValue :: "ResumeAnalysis \<Rightarrow> MergedValue" where
  "toValue r = \<lparr> summaryValue = summary r,
     keyAchievementsValue = map JStr (keyAchievements r),
     technicalSkillsValue = map JStr (technicalSkills r),
     businessImpactValue = map JStr (businessImpact r),
     problemSolvingValue = map JStr (problemSolving r),
     leadershipValue = map JStr (leadership r) \<rparr>"

definition reportFields :: "string list" where
  "reportFields = [''summary'', ''keyAchievements'', ''technicalSkills'', ''businessImpact'',
     ''problemSolving'', ''leadership'']"

fun isStringArray :: "json option \<Rightarrow> bool" where
  "isStringArray (Some (JArr xs)) = list_all (\<lambda>x. case x of JStr s \<Rightarrow> True | _ \<Rightarrow> False) xs"
| "isStringArray v = False"

fun isString :: "json option \<Rightarrow> bool" where
  "isString (Some (JStr s)) = True"
| "isString v = False"

definition hasReportShape :: "json \<Rightarrow> bool" where
  "hasReportShape v =
     (case v of
        JObj entries \<Rightarrow>
          distinct (map fst entries) \<and> set (map fst entries) = set reportFields
          \<and> isString (getProp v ''summary'')
          \<and> list_all (\<lambda>k. isStringArray (getProp v k)) (tl reportFields)
      | _ \<Rightarrow> False)"

text \<open>The response of the service to the request for batch \<open>j\<close> (counted from 0).\<close>

definition batchResponse ::
  "environment \<Rightarrow> string \<Rightarrow> CommitInfo list list \<Rightarrow> nat \<Rightarrow> completion" where
  "batchResponse env projectContext batches j =
     createCompletion env (makePrompt (batches ! j) (j + 1) (length batches) projectContext)"

text \<open>Sample environments.\<close>

definition sampleLiterals :: literals where
  "sampleLiterals = \<lparr> labelName = ''name: '', labelDescription = ''description: '',
     labelDependencies = ''dependencies: '', labelDevDependencies = ''devDependencies: '',
     fallbackText = ''context unavailable'' \<rparr>"

abbreviation DQ :: char where "DQ \<equiv> CHR 0x22"

definition quoted :: "string \<Rightarrow> string" where
  "quoted s = [DQ] @ s @ [DQ]"

definition listsOnlyText :: string where
  "listsOnlyText =
     ''{'' @ quoted ''keyAchievements'' @ '':[],'' @ quoted ''technicalSkills'' @ '':[],''
     @ quoted ''businessImpact'' @ '':[],'' @ quoted ''problemSolving'' @ '':[],''
     @ quoted ''leadership'' @ '':[]}''"

definition listsOnlyValue :: json where
  "listsOnlyValue = JObj [(''keyAchievements'', JArr []), (''technicalSkills'', JArr []),
     (''businessImpact'', JArr []), (''problemSolving'', JArr []), (''leadership'', JArr [])]"

definition listsOnlyEnv :: environment where
  "listsOnlyEnv = \<lparr> OPENAI_API_KEY = Some ''sk-test'', packageJsonExists = False,
     catPackageJson = None,
     JSON_parse = (\<lambda>text. if text = listsOnlyText then Some listsOnlyValue
                          else if text = ''{}'' then Some (JObj []) else None),
     createCompletion = (\<lambda>p. Content (Some listsOnlyText)) \<rparr>"


definition emptyObjectEnv :: environment where
  "emptyObjectEnv = listsOnlyEnv \<lparr> createCompletion := (\<lambda>p. Content (Some ''{}'')) \<rparr>"

definition summaryText :: string where
  "summaryText = ''{'' @ quoted ''summary'' @ '':'' @ quoted ''ok'' @ '',''
     @ quoted ''keyAchievements'' @ '':['' @ quoted ''a1'' @ ''],''
     @ quoted ''technicalSkills'' @ '':[],''
     @ quoted ''businessImpact'' @ '':[],'' @ quoted ''problemSolving'' @ '':[],''
     @ quoted ''leadership'' @ '':[]}''"

definition summaryValue0 :: json where
  "summaryValue0 = JObj [(''summary'', JStr ''ok''), (''keyAchievements'', JArr [JStr ''a1'']),
     (''technicalSkills'', JArr []),
     (''businessImpact'', JArr []), (''problemSolving'', JArr []), (''leadership'', JArr [])]"

definition secondBatchFailsEnv :: environment where
  "secondBatchFailsEnv = \<lparr> OPENAI_API_KEY = Some ''sk-test'', packageJsonExists = False,
     catPackageJson = None,
     JSON_parse = (\<lambda>text. if text = summaryText then Some summaryValue0 else None),
     createCompletion = (\<lambda>p. if promptBatchNum p = 2 then Content (Some ''Sorry, I cannot'')
                               else Content (Some summaryText)) \<rparr>"

definition twentyOneCommits :: "CommitInfo list" where
  "twentyOneCommits = replicate 21 (hd sampleCommits)"

definition packageText :: string where
  "packageText = ''{'' @ quoted ''name'' @ '':'' @ quoted ''git-log-ai'' @ '',''
     @ quoted ''dependencies'' @ '':{'' @ quoted ''openai'' @ '':'' @ quoted ''^4.0.0'' @ '',''
     @ quoted ''dotenv'' @ '':'' @ quoted ''^16.0.0'' @ ''}}''"

definition packageValue :: json where
  "packageValue = JObj [(''name'', JStr ''git-log-ai''),
     (''dependencies'', JObj [(''openai'', JStr ''^4.0.0''), (''dotenv'', JStr ''^16.0.0'')])]"

definition packageEnv :: environment where
  "packageEnv = \<lparr> OPENAI_API_KEY = None, packageJsonExists = True,
     catPackageJson = Some packageText,
     JSON_parse = (\<lambda>text. if text = packageText then Some packageValue else None),
     createCompletion = (\<lambda>p. Content None) \<rparr>"

definition nullPackageEnv :: environment where
  "nullPackageEnv = \<lparr> OPENAI_API_KEY = None, packageJsonExists = True,
     catPackageJson = Some ''null'',
     JSON_parse = (\<lambda>text. if text = ''null'' then Some JNull else None),
     createCompletion = (\<lambda>p. Content None) \<rparr>"

definition toStringPackageText :: string where
  "toStringPackageText = ''{'' @ quoted ''name'' @ '':{'' @ quoted ''toString'' @ '':1},''
     @ quoted ''description'' @ '':'' @ quoted ''d'' @ ''}''"

definition toStringPackageValue :: json where
  "toStringPackageValue =
     JObj [(''name'', JObj [(''toString'', JNum ''1'')]), (''description'', JStr ''d'')]"

definition toStringPackageEnv :: environment where
  "toStringPackageEnv = \<lparr> OPENAI_API_KEY = None, packageJsonExists = True,
     catPackageJson = Some toStringPackageText,
     JSON_parse = (\<lambda>text. if text = toStringPackageText then Some toStringPackageValue
                          else None),
     createCompletion = (\<lambda>p. Content None) \<rparr>"


section \<open>Properties of strings\<close>

lemma char_eq_of_char: "(c = d) = ((of_char c :: nat) = of_char d)"
  by simp

lemma isWhiteSpace_of_char:
  "isWhiteSpace c \<longleftrightarrow> (of_char c :: nat) \<in> {9, 10, 11, 12, 13, 32, 160}"
  unfolding isWhiteSpace_def
  by (simp add: char_eq_of_char [of c])

lemma isWhiteSpace_toLowerChar: "isWhiteSpace (toLowerChar c) = isWhiteSpace c"
  by (auto simp: isWhiteSpace_of_char toLowerChar_def Let_def)

lemma dropWhile_Nil_hd: "dropWhile P xs \<noteq> [] \<Longrightarrow> \<not> P (hd (dropWhile P xs))"
  by (rule hd_dropWhile)

lemma trim_empty_iff: "trim s = [] \<longleftrightarrow> (\<forall>c\<in>set s. isWhiteSpace c)"
proof
  assume "trim s = []"
  then have all: "\<forall>c\<in>set (dropWhile isWhiteSpace s). isWhiteSpace c"
    by (simp add: trim_def dropWhile_eq_Nil_conv)
  have "dropWhile isWhiteSpace s = []"
  proof (rule ccontr)
    assume ne: "dropWhile isWhiteSpace s \<noteq> []"
    then have "\<not> isWhiteSpace (hd (dropWhile isWhiteSpace s))" by (rule hd_dropWhile)
    moreover from ne have "hd (dropWhile isWhiteSpace s) \<in> set (dropWhile isWhiteSpace s)"
      by (rule hd_in_set)
    ultimately show False using all by blast
  qed
  then show "\<forall>c\<in>set s. isWhiteSpace c" by (simp add: dropWhile_eq_Nil_conv)
next
  assume "\<forall>c\<in>set s. isWhiteSpace c"
  then show "trim s = []" by (auto simp: trim_def dest: set_dropWhileD)
qed

lemma trim_map:
  "(\<And>c. isWhiteSpace (f c) = isWhiteSpace c) \<Longrightarrow> trim (map f s) = map f (trim s)"
  by (simp add: trim_def dropWhile_map rev_map comp_def)

lemma trim_toLowerCase: "trim (toLowerCase s) = toLowerCase (trim s)"
  unfolding toLowerCase_def by (rule trim_map) (rule isWhiteSpace_toLowerChar)

lemma last_dropWhile_keep: "dropWhile P xs \<noteq> [] \<Longrightarrow> last (dropWhile P xs) = last xs"
  by (induction xs) (auto split: if_splits)

lemma trim_last: "trim s \<noteq> [] \<Longrightarrow> \<not> isWhiteSpace (last (trim s))"
proof -
  assume ne: "trim s \<noteq> []"
  let ?u = "dropWhile isWhiteSpace (rev (dropWhile isWhiteSpace s))"
  from ne have u: "?u \<noteq> []" by (simp add: trim_def)
  then have "\<not> isWhiteSpace (hd ?u)" by (rule hd_dropWhile)
  moreover from u have "last (trim s) = hd ?u" by (simp add: trim_def last_rev)
  ultimately show ?thesis by simp
qed

lemma trim_hd: "trim s \<noteq> [] \<Longrightarrow> \<not> isWhiteSpace (hd (trim s))"
proof -
  assume ne: "trim s \<noteq> []"
  let ?t = "dropWhile isWhiteSpace s"
  let ?u = "dropWhile isWhiteSpace (rev ?t)"
  from ne have u: "?u \<noteq> []" by (simp add: trim_def)
  then have t: "?t \<noteq> []" by (auto dest: set_dropWhileD)
  from u have "hd (trim s) = last ?u" by (simp add: trim_def hd_rev)
  also from u have "\<dots> = last (rev ?t)" by (rule last_dropWhile_keep)
  also from t have "\<dots> = hd ?t" by (simp add: last_rev)
  finally show ?thesis using hd_dropWhile [OF t] by simp
qed

lemma dropWhile_hd_id: "xs \<noteq> [] \<Longrightarrow> \<not> P (hd xs) \<Longrightarrow> dropWhile P xs = xs"
  by (cases xs) auto

lemma trim_idem: "trim (trim s) = trim s"
proof (cases "trim s = []")
  case True
  have "trim [] = []" by (simp add: trim_def)
  with True show ?thesis by (simp del: dropWhile_eq_Nil_conv)
next
  case False
  then have "dropWhile isWhiteSpace (trim s) = trim s"
    by (simp add: dropWhile_hd_id trim_hd)
  moreover from False have "dropWhile isWhiteSpace (rev (trim s)) = rev (trim s)"
    by (simp add: dropWhile_hd_id trim_last hd_rev)
  ultimately show ?thesis by (simp add: trim_def [of "trim s"])
qed

lemma split_not_Nil: "split sep s \<noteq> []"
  by (induction s) (auto split: list.splits)

lemma join_Cons_Cons: "ys \<noteq> [] \<Longrightarrow> join sep (x # ys) = x @ sep @ join sep ys"
  by (cases ys) auto

lemma join_Cons_char: "join sep ((c # w) # ws) = c # join sep (w # ws)"
  by (cases ws) auto

lemma join_split: "join [sep] (split sep s) = s"
proof (induction s)
  case Nil
  show ?case by simp
next
  case (Cons c s)
  show ?case
  proof (cases "c = sep")
    case True
    with Cons show ?thesis by (simp add: join_Cons_Cons split_not_Nil)
  next
    case False
    obtain w ws where sp: "split sep s = w # ws"
      using split_not_Nil [of sep s] by (cases "split sep s") auto
    with False Cons show ?thesis
      by (simp add: join_Cons_char)
  qed
qed

lemma split_no_sep: "sep \<notin> set x \<Longrightarrow> split sep x = [x]"
  by (induction x) auto

lemma split_append: "sep \<notin> set x \<Longrightarrow> split sep (x @ sep # rest) = x # split sep rest"
  by (induction x) (auto simp: split_not_Nil split: list.splits)

lemma split_pieces: "x \<in> set (split sep s) \<Longrightarrow> sep \<notin> set x \<and> set x \<subseteq> set s"
proof (induction s arbitrary: x)
  case Nil
  then show ?case by simp
next
  case (Cons c s)
  show ?case
  proof (cases "c = sep")
    case True
    with Cons show ?thesis by auto
  next
    case False
    obtain w ws where sp: "split sep s = w # ws"
      using split_not_Nil [of sep s] by (cases "split sep s") auto
    with False Cons.prems have "x = c # w \<or> x \<in> set ws" by simp
    moreover have "sep \<notin> set w \<and> set w \<subseteq> set s" using Cons.IH [of w] sp by simp
    moreover have "x \<in> set ws \<Longrightarrow> sep \<notin> set x \<and> set x \<subseteq> set s"
      using Cons.IH [of x] sp by simp
    ultimately show ?thesis using False by auto
  qed
qed

lemma split_join:
  "xs \<noteq> [] \<Longrightarrow> \<forall>x\<in>set xs. sep \<notin> set x \<Longrightarrow> split sep (join [sep] xs) = xs"
proof (induction xs)
  case Nil
  then show ?case by simp
next
  case (Cons x xs)
  show ?case
  proof (cases "xs = []")
    case True
    with Cons.prems show ?thesis by (simp add: split_no_sep)
  next
    case False
    with Cons have "split sep (join [sep] xs) = xs" by simp
    with False Cons.prems show ?thesis
      by (simp add: join_Cons_Cons split_append)
  qed
qed

lemma test_WhiteSpaceStar: "test [WhiteSpaceStar] s \<longleftrightarrow> list_all isWhiteSpace s"
  by (induction s) auto

lemma test_Lit_prefix:
  "test (map Lit p @ [WhiteSpaceStar]) s \<longleftrightarrow>
     take (length p) s = p \<and> list_all isWhiteSpace (drop (length p) s)"
  apply (induction p arbitrary: s) apply (simp add: test_WhiteSpaceStar)
  subgoal for a p s by (cases s) auto
  done


section \<open>Properties of the commit filter\<close>

lemma test_bareOf: "test (map Lit p @ [WhiteSpaceStar]) s = bareOf p s"
  by (simp add: test_Lit_prefix bareOf_def)

lemma test_star: "test [Lit (CHR ''*''), WhiteSpaceStar] s = bareOf ''*'' s"
  using test_bareOf [of "''*''" s] by simp

lemma meaningless_iff:
  "list_ex (\<lambda>pattern. test pattern s) meaninglessPatterns = meaninglessSubject s"
  unfolding meaninglessPatterns_def meaninglessSubject_def conventionalPrefixes_def
  by (simp only: list_ex_Nil_iff list_ex_Cons_iff simp_thms test_bareOf test_star test_WhiteSpaceStar test.simps(1))

lemma nonBlank_iff: "nonBlank l = list_ex (\<lambda>c. \<not> isWhiteSpace c) l"
  by (simp add: nonBlank_def trim_empty_iff list_ex_iff)

lemma nonBlankLines_eq: "filter nonBlank (split LF text) = nonBlankLines text"
  by (simp add: nonBlankLines_def nonBlank_iff [abs_def])

lemma keepCommit_fields:
  assumes "keepCommit c"
  shows "hash c \<noteq> []" "date c \<noteq> []" "author c \<noteq> []" "email c \<noteq> []"
    "3 \<le> length (trim (subject c))"
    "\<not> meaninglessSubject (trim (toLowerCase (subject c)))"
proof -
  from assms have a: "hash c \<noteq> [] \<and> date c \<noteq> [] \<and> author c \<noteq> [] \<and> subject c \<noteq> []"
    and b: "\<not> length (trim (subject c)) < 3"
    and d: "trim (author c) \<noteq> [] \<and> trim (email c) \<noteq> []"
    and e: "\<not> list_ex (\<lambda>pattern. test pattern (trim (toLowerCase (subject c)))) meaninglessPatterns"
    unfolding keepCommit_def keepCommitWith_def Let_def
    by (auto split: if_splits simp del: list_ex_Nil_iff list_ex_Cons_iff)
  from a show "hash c \<noteq> []" "date c \<noteq> []" "author c \<noteq> []" by simp_all
  from d have "trim (email c) \<noteq> []" by simp
  then show "email c \<noteq> []" by (auto simp: trim_def)
  from b show "3 \<le> length (trim (subject c))" by simp
  from e show "\<not> meaninglessSubject (trim (toLowerCase (subject c)))"
    unfolding meaningless_iff .
qed

text \<open>
  Claim C1. For every raw text the filter returns at most as many records as the text has
  non-blank lines; the records are a subsequence of the parsed non-blank lines, in input
  order; every record has a non-empty hash, date, author name and author email, a subject
  whose trimmed length is at least 3 and whose lower-cased trimmed form is not
  meaningless; and the line with the bare subject \<^verbatim>\<open>fix: \<close> is dropped.
\<close>

theorem commit_filter_postcondition:
  "length (fetchGitLog text) \<le> length (nonBlankLines text)
   \<and> subseq (fetchGitLog text) (map parseLine (nonBlankLines text))
   \<and> (\<forall>c\<in>set (fetchGitLog text).
         hash c \<noteq> [] \<and> date c \<noteq> [] \<and> author c \<noteq> [] \<and> email c \<noteq> []
         \<and> 3 \<le> length (trim (subject c))
         \<and> \<not> meaninglessSubject (trim (toLowerCase (subject c))))
   \<and> fetchGitLog (''a1b2c3'' @ [TAB] @ ''2023-06-01'' @ [TAB] @ ''Jane Doe'' @ [TAB]
         @ ''jane@x.com'' @ [TAB] @ ''fix: '' @ [TAB]) = []"
proof (intro conjI ballI)
  have "length (fetchGitLog text) \<le> length (map parseLine (nonBlankLines text))"
    unfolding fetchGitLog_def nonBlankLines_eq by (rule length_filter_le)
  then show "length (fetchGitLog text) \<le> length (nonBlankLines text)" by simp
  show "subseq (fetchGitLog text) (map parseLine (nonBlankLines text))"
    unfolding fetchGitLog_def nonBlankLines_eq by (rule subseq_filter_left)
  show "fetchGitLog (''a1b2c3'' @ [TAB] @ ''2023-06-01'' @ [TAB] @ ''Jane Doe'' @ [TAB]
         @ ''jane@x.com'' @ [TAB] @ ''fix: '' @ [TAB]) = []"
    by code_simp
next
  fix c assume "c \<in> set (fetchGitLog text)"
  then have k: "keepCommit c" by (simp add: fetchGitLog_def)
  from keepCommit_fields [OF k]
  show "hash c \<noteq> []" "date c \<noteq> []" "author c \<noteq> []" "email c \<noteq> []"
    "3 \<le> length (trim (subject c))"
    "\<not> meaninglessSubject (trim (toLowerCase (subject c)))"
    by simp_all
qed

theorem commit_filter_postcondition_witness:
  "fetchGitLog sampleLog = sampleCommits
   \<and> length (nonBlankLines sampleLog) = 3
   \<and> length (fetchGitLog sampleLog) \<le> length (nonBlankLines sampleLog)
   \<and> subseq (fetchGitLog sampleLog) (map parseLine (nonBlankLines sampleLog))
   \<and> 3 \<le> length (trim (subject (hd (fetchGitLog sampleLog))))
   \<and> \<not> meaninglessSubject (trim (toLowerCase (subject (hd (fetchGitLog sampleLog)))))"
proof -
  have out: "fetchGitLog sampleLog = sampleCommits" by code_simp
  have n: "length (nonBlankLines sampleLog) = 3" by code_simp
  have "hd (fetchGitLog sampleLog) \<in> set (fetchGitLog sampleLog)"
    by (simp add: out sampleCommits_def)
  with commit_filter_postcondition [of sampleLog] out n show ?thesis by simp
qed


lemma destructure_drop: "snd (snd (snd (snd (snd (destructure parts))))) = drop 5 parts"
  by (induction parts rule: destructure.induct) simp_all

lemma orEmpty_Some: "orEmpty (Some s) = s"
  by (simp add: orEmpty_def)

lemma body_parseLine: "body (parseLine line) = trim (join [TAB] (drop 5 (split TAB line)))"
proof -
  obtain h d n e s bp where dz: "destructure (split TAB line) = (h, d, n, e, s, bp)"
    by (cases "destructure (split TAB line)") auto
  with destructure_drop [of "split TAB line"] have "bp = drop 5 (split TAB line)" by simp
  with dz show ?thesis by (simp add: parseLine_def orEmpty_Some)
qed

text \<open>
  Claim C5, amended. For every raw record the body of the parsed record is the fields
  beyond the fifth, rejoined with TAB, with leading and trailing whitespace removed; the
  line with subject \<^verbatim>\<open>Add retry logic to uploader\<close> is kept with body
  \<^verbatim>\<open>Handles transient 5xx errors\<close>.
\<close>

theorem body_reconstruction_trimmed:
  "body (parseLine line) = trim (join [TAB] (drop 5 (split TAB line)))
   \<and> fetchGitLog (''a1b2c3'' @ [TAB] @ ''2023-06-01'' @ [TAB] @ ''Jane Doe'' @ [TAB]
         @ ''jane@x.com'' @ [TAB] @ ''Add retry logic to uploader'' @ [TAB]
         @ ''Handles transient 5xx errors'')
       = [\<lparr> hash = ''a1b2c3'', date = ''2023-06-01'', author = ''Jane Doe'',
            email = ''jane@x.com'', subject = ''Add retry logic to uploader'',
            body = ''Handles transient 5xx errors'' \<rparr>]"
proof
  show "body (parseLine line) = trim (join [TAB] (drop 5 (split TAB line)))"
    by (rule body_parseLine)
  show "fetchGitLog (''a1b2c3'' @ [TAB] @ ''2023-06-01'' @ [TAB] @ ''Jane Doe'' @ [TAB]
         @ ''jane@x.com'' @ [TAB] @ ''Add retry logic to uploader'' @ [TAB]
         @ ''Handles transient 5xx errors'')
       = [\<lparr> hash = ''a1b2c3'', date = ''2023-06-01'', author = ''Jane Doe'',
            email = ''jane@x.com'', subject = ''Add retry logic to uploader'',
            body = ''Handles transient 5xx errors'' \<rparr>]"
    by code_simp
qed

text \<open>
  Claim C5 as stated fails: the body is trimmed after the fields are rejoined. With a
  space in front of the sixth field the parsed body is not the rejoined text.
\<close>

theorem body_reconstruction_counterexample:
  "body (parseLine (''a1b2c3'' @ [TAB] @ ''2023-06-01'' @ [TAB] @ ''Jane Doe'' @ [TAB]
         @ ''jane@x.com'' @ [TAB] @ ''Add retry logic to uploader'' @ [TAB]
         @ '' Handles transient 5xx errors''))
     = ''Handles transient 5xx errors''
   \<and> join [TAB] (drop 5 (split TAB (''a1b2c3'' @ [TAB] @ ''2023-06-01'' @ [TAB] @ ''Jane Doe'' @ [TAB]
         @ ''jane@x.com'' @ [TAB] @ ''Add retry logic to uploader'' @ [TAB]
         @ '' Handles transient 5xx errors'')))
     = '' Handles transient 5xx errors''
   \<and> body (parseLine (''a1b2c3'' @ [TAB] @ ''2023-06-01'' @ [TAB] @ ''Jane Doe'' @ [TAB]
         @ ''jane@x.com'' @ [TAB] @ ''Add retry logic to uploader'' @ [TAB]
         @ '' Handles transient 5xx errors''))
     \<noteq> join [TAB] (drop 5 (split TAB (''a1b2c3'' @ [TAB] @ ''2023-06-01'' @ [TAB] @ ''Jane Doe'' @ [TAB]
         @ ''jane@x.com'' @ [TAB] @ ''Add retry logic to uploader'' @ [TAB]
         @ '' Handles transient 5xx errors'')))"
  by code_simp

lemma length_toLowerCase: "length (toLowerCase s) = length s"
  by (simp add: toLowerCase_def)

lemma early_patterns_unreachable:
  assumes "3 \<le> length (trim subj)"
  shows "\<not> test [] (trim (toLowerCase subj))"
    "\<not> test [WhiteSpaceStar] (trim (toLowerCase subj))"
    "\<not> test [Lit (CHR ''*''), WhiteSpaceStar] (trim (toLowerCase subj))"
proof -
  let ?t = "trim (toLowerCase subj)"
  from assms have len: "3 \<le> length ?t"
    by (simp add: trim_toLowerCase length_toLowerCase)
  then have ne: "?t \<noteq> []" by auto
  show "\<not> test [] ?t" using ne by simp
  show "\<not> test [WhiteSpaceStar] ?t"
  proof
    assume "test [WhiteSpaceStar] ?t"
    then have "\<forall>c\<in>set ?t. isWhiteSpace c" by (simp add: test_WhiteSpaceStar list_all_iff)
    moreover from ne have "hd ?t \<in> set ?t" by (rule hd_in_set)
    ultimately show False using trim_hd [OF ne] by blast
  qed
  show "\<not> test [Lit (CHR ''*''), WhiteSpaceStar] ?t"
  proof
    assume "test [Lit (CHR ''*''), WhiteSpaceStar] ?t"
    then have "\<forall>c\<in>set (drop 1 ?t). isWhiteSpace c"
      by (simp add: test_star bareOf_def list_all_iff)
    moreover from len have "drop 1 ?t \<noteq> []" by auto
    then have "last (drop 1 ?t) \<in> set (drop 1 ?t)" by (rule last_in_set)
    moreover from len have "last (drop 1 ?t) = last ?t" by (simp add: last_drop)
    ultimately show False using trim_last [OF ne] by auto
  qed
qed

lemma keepCommitWith_prefixPatterns:
  "keepCommitWith prefixPatterns c = keepCommitWith meaninglessPatterns c"
proof (cases "3 \<le> length (trim (subject c))")
  case True
  from early_patterns_unreachable [OF True]
  have "list_ex (\<lambda>pattern. test pattern (trim (toLowerCase (subject c)))) meaninglessPatterns
        = list_ex (\<lambda>pattern. test pattern (trim (toLowerCase (subject c)))) prefixPatterns"
    by (simp add: meaninglessPatterns_def prefixPatterns_def)
  then show ?thesis by (simp add: keepCommitWith_def Let_def)
next
  case False
  then show ?thesis by (simp add: keepCommitWith_def)
qed

text \<open>
  Claim C10. A subject that passes the length check (trimmed length at least 3) cannot
  match the patterns \<^verbatim>\<open>^$\<close>, \<^verbatim>\<open>^\s*$\<close> or \<^verbatim>\<open>^\*\s*$\<close> once lower-cased and
  trimmed, so the filter over the seven bare-prefix patterns returns the same records as
  the filter over all ten, for every input.
\<close>

theorem early_patterns_redundant:
  "(3 \<le> length (trim subj) \<longrightarrow>
      \<not> test [] (trim (toLowerCase subj))
      \<and> \<not> test [WhiteSpaceStar] (trim (toLowerCase subj))
      \<and> \<not> test [Lit (CHR ''*''), WhiteSpaceStar] (trim (toLowerCase subj)))
   \<and> fetchGitLogWith prefixPatterns text = fetchGitLog text"
  using early_patterns_unreachable [of subj]
  by (simp add: fetchGitLogWith_def fetchGitLog_def keepCommit_def
        keepCommitWith_prefixPatterns [abs_def])

theorem early_patterns_redundant_witness:
  "3 \<le> length (trim ''Fix login redirect'')
   \<and> \<not> test [] (trim (toLowerCase ''Fix login redirect''))
   \<and> \<not> test [WhiteSpaceStar] (trim (toLowerCase ''Fix login redirect''))
   \<and> \<not> test [Lit (CHR ''*''), WhiteSpaceStar] (trim (toLowerCase ''Fix login redirect''))
   \<and> fetchGitLogWith prefixPatterns sampleLog = fetchGitLog sampleLog
   \<and> fetchGitLog sampleLog = sampleCommits"
proof -
  have len: "3 \<le> length (trim ''Fix login redirect'')" by code_simp
  have out: "fetchGitLog sampleLog = sampleCommits" by code_simp
  from early_patterns_redundant [of "''Fix login redirect''" sampleLog] len out
  show ?thesis by simp
qed


lemma set_trim: "set (trim s) \<subseteq> set s"
proof -
  have "set (trim s) \<subseteq> set (dropWhile isWhiteSpace s)"
    unfolding trim_def using set_dropWhileD [of _ isWhiteSpace "rev (dropWhile isWhiteSpace s)"]
    by auto
  then show ?thesis using set_dropWhileD [of _ isWhiteSpace s] by blast
qed

lemma set_join: "set (join sep xs) \<subseteq> set sep \<union> \<Union> (set ` set xs)"
  by (induction sep xs rule: join.induct) auto

lemma parse_serialize:
  assumes "TAB \<notin> set (hash c)" "TAB \<notin> set (date c)" "TAB \<notin> set (author c)"
    "TAB \<notin> set (email c)" "TAB \<notin> set (subject c)" "trim (body c) = body c"
  shows "parseLine (serializeCommit c) = c"
proof -
  have "split TAB (serializeCommit c)
        = hash c # date c # author c # email c # subject c # split TAB (body c)"
    using assms by (simp add: serializeCommit_def split_append)
  then show ?thesis using assms by (simp add: parseLine_def orEmpty_Some join_split)
qed

lemma destructure_fields:
  assumes "destructure parts = (h, d, n, e, s, bp)"
  shows "set (orEmpty h) \<subseteq> \<Union> (set ` set parts)" 
    "set (orEmpty d) \<subseteq> \<Union> (set ` set parts)" 
    "set (orEmpty n) \<subseteq> \<Union> (set ` set parts)" 
    "set (orEmpty e) \<subseteq> \<Union> (set ` set parts)" 
    "set (orEmpty s) \<subseteq> \<Union> (set ` set parts)"
    "set bp \<subseteq> set parts"
  using assms by (induction parts rule: destructure.induct) (auto simp: orEmpty_def)

lemma destructure_no_sep:
  assumes "destructure parts = (h, d, n, e, s, bp)" "\<forall>p\<in>set parts. x \<notin> set p"
  shows "x \<notin> set (orEmpty h)" "x \<notin> set (orEmpty d)" "x \<notin> set (orEmpty n)"
    "x \<notin> set (orEmpty e)" "x \<notin> set (orEmpty s)"
  using destructure_fields [OF assms(1)] assms(2) by blast+

lemma parseLine_shape:
  shows "TAB \<notin> set (hash (parseLine line))" "TAB \<notin> set (date (parseLine line))"
    "TAB \<notin> set (author (parseLine line))" "TAB \<notin> set (email (parseLine line))"
    "TAB \<notin> set (subject (parseLine line))"
    "trim (body (parseLine line)) = body (parseLine line)"
proof -
  obtain h d n e s bp where dz: "destructure (split TAB line) = (h, d, n, e, s, bp)"
    by (cases "destructure (split TAB line)") auto
  have nosep: "\<forall>p\<in>set (split TAB line). TAB \<notin> set p"
    using split_pieces by blast
  from destructure_no_sep [OF dz nosep] dz
  show "TAB \<notin> set (hash (parseLine line))" "TAB \<notin> set (date (parseLine line))"
    "TAB \<notin> set (author (parseLine line))" "TAB \<notin> set (email (parseLine line))"
    "TAB \<notin> set (subject (parseLine line))"
    by (simp_all add: parseLine_def)
  from dz show "trim (body (parseLine line)) = body (parseLine line)"
    by (simp add: parseLine_def orEmpty_Some trim_idem)
qed

lemma parseLine_no_LF:
  assumes "LF \<notin> set line"
  shows "LF \<notin> set (serializeCommit (parseLine line))"
proof -
  obtain h d n e s bp where dz: "destructure (split TAB line) = (h, d, n, e, s, bp)"
    by (cases "destructure (split TAB line)") auto
  have nosep: "\<forall>p\<in>set (split TAB line). LF \<notin> set p"
    using split_pieces [of _ TAB line] assms by blast
  from destructure_no_sep [OF dz nosep]
  have f: "LF \<notin> set (orEmpty h)" "LF \<notin> set (orEmpty d)" "LF \<notin> set (orEmpty n)"
    "LF \<notin> set (orEmpty e)" "LF \<notin> set (orEmpty s)" by simp_all
  from destructure_fields(6) [OF dz] nosep have "\<forall>p\<in>set bp. LF \<notin> set p" by blast
  then have "LF \<notin> set (join [TAB] bp)" using set_join [of "[TAB]" bp] by auto
  then have b: "LF \<notin> set (trim (join [TAB] bp))" using set_trim by blast
  show ?thesis
    using f b dz by (simp add: serializeCommit_def parseLine_def orEmpty_Some)
qed

lemma keepCommit_nonBlank:
  assumes "keepCommit c"
  shows "nonBlank (serializeCommit c)"
proof -
  from keepCommit_fields(5) [OF assms] have "trim (subject c) \<noteq> []" by auto
  then obtain x where "x \<in> set (subject c)" "\<not> isWhiteSpace x"
    by (auto simp: trim_empty_iff)
  moreover have "set (subject c) \<subseteq> set (serializeCommit c)"
    by (auto simp: serializeCommit_def)
  ultimately show ?thesis unfolding nonBlank_def trim_empty_iff by blast
qed

lemma fetchGitLog_reserialize:
  assumes "\<forall>c\<in>set cs. keepCommit c \<and> parseLine (serializeCommit c) = c
             \<and> LF \<notin> set (serializeCommit c)"
  shows "fetchGitLog (reserialize cs) = cs"
proof (cases "cs = []")
  case True
  then show ?thesis by (simp add: fetchGitLog_def reserialize_def nonBlank_def trim_def)
next
  case False
  with assms have "split LF (reserialize cs) = map serializeCommit cs"
    by (simp add: reserialize_def split_join)
  moreover have "filter nonBlank (map serializeCommit cs) = map serializeCommit cs"
    using assms by (simp add: keepCommit_nonBlank)
  moreover have "map parseLine (map serializeCommit cs) = cs"
    using assms by (simp add: map_idI)
  moreover have "filter keepCommit cs = cs" using assms by simp
  ultimately show ?thesis by (simp add: fetchGitLog_def)
qed

text \<open>
  Claim C7. For every raw text, writing the filter's output back in the tab-delimited
  line format and filtering again gives the same sequence of records.
\<close>

theorem filter_idempotent:
  "fetchGitLog (reserialize (fetchGitLog text)) = fetchGitLog text"
proof (rule fetchGitLog_reserialize, rule ballI)
  fix c assume "c \<in> set (fetchGitLog text)"
  then obtain line where k: "keepCommit c" and c: "c = parseLine line"
    and l: "line \<in> set (split LF text)"
    by (auto simp: fetchGitLog_def)
  from l have "LF \<notin> set line" using split_pieces by blast
  then have "LF \<notin> set (serializeCommit c)" unfolding c by (rule parseLine_no_LF)
  moreover have "parseLine (serializeCommit c) = c"
    unfolding c by (rule parse_serialize) (rule parseLine_shape)+
  ultimately show "keepCommit c \<and> parseLine (serializeCommit c) = c
      \<and> LF \<notin> set (serializeCommit c)" using k by simp
qed


section \<open>Properties of the report merger\<close>

lemma foldl_push_all_summary:
  "summary (foldl push_all m ps) = summary m"
  by (induction ps arbitrary: m) (simp_all add: push_all_def)

lemma foldl_push_all_keyAchievements:
  "keyAchievements (foldl push_all m ps) = keyAchievements m @ concat (map keyAchievements ps)"
  by (induction ps arbitrary: m) (simp_all add: push_all_def)

lemma foldl_push_all_technicalSkills:
  "technicalSkills (foldl push_all m ps) = technicalSkills m @ concat (map technicalSkills ps)"
  by (induction ps arbitrary: m) (simp_all add: push_all_def)

lemma foldl_push_all_businessImpact:
  "businessImpact (foldl push_all m ps) = businessImpact m @ concat (map businessImpact ps)"
  by (induction ps arbitrary: m) (simp_all add: push_all_def)

lemma foldl_push_all_problemSolving:
  "problemSolving (foldl push_all m ps) = problemSolving m @ concat (map problemSolving ps)"
  by (induction ps arbitrary: m) (simp_all add: push_all_def)

lemma foldl_push_all_leadership:
  "leadership (foldl push_all m ps) = leadership m @ concat (map leadership ps)"
  by (induction ps arbitrary: m) (simp_all add: push_all_def)

lemmas foldl_push_all =
  foldl_push_all_summary foldl_push_all_keyAchievements foldl_push_all_technicalSkills
  foldl_push_all_businessImpact foldl_push_all_problemSolving foldl_push_all_leadership

lemma distinct_foldl_Set_add:
  "distinct acc \<Longrightarrow> distinct (foldl Set_add acc xs)"
  by (induction xs arbitrary: acc) (simp_all add: Set_add_def)

lemma set_foldl_Set_add:
  "set (foldl Set_add acc xs) = set acc \<union> set xs"
  by (induction xs arbitrary: acc) (auto simp: Set_add_def)

lemma foldl_Set_add_dedup:
  "distinct acc \<Longrightarrow>
   foldl Set_add acc xs = acc @ dedupFirstSeen (filter (\<lambda>x. x \<notin> set acc) xs)"
proof (induction xs arbitrary: acc)
  case Nil
  show ?case by simp
next
  case (Cons x xs)
  show ?case
  proof (cases "x \<in> set acc")
    case True
    with Cons show ?thesis by (simp add: Set_add_def)
  next
    case False
    have eq: "filter (\<lambda>y. y \<notin> set (acc @ [x])) xs
              = removeAll x (filter (\<lambda>y. y \<notin> set acc) xs)"
      by (induction xs) auto
    from False Cons.prems have "distinct (acc @ [x])" by simp
    from Cons.IH [OF this]
    have "foldl Set_add (acc @ [x]) xs
          = (acc @ [x]) @ dedupFirstSeen (removeAll x (filter (\<lambda>y. y \<notin> set acc) xs))"
      by (simp only: eq)
    moreover from False have "foldl Set_add acc (x # xs) = foldl Set_add (acc @ [x]) xs"
      by (simp add: Set_add_def)
    moreover from False
    have "dedupFirstSeen (filter (\<lambda>y. y \<notin> set acc) (x # xs))
          = x # dedupFirstSeen (removeAll x (filter (\<lambda>y. y \<notin> set acc) xs))"
      by simp
    ultimately show ?thesis by simp
  qed
qed

lemma new_Set_dedup: "new_Set xs = dedupFirstSeen xs"
  using foldl_Set_add_dedup [of "[]" xs] by (simp add: new_Set_def)

lemma distinct_new_Set: "distinct (new_Set xs)"
  by (simp add: new_Set_def distinct_foldl_Set_add)

lemma set_new_Set: "set (new_Set xs) = set xs"
  by (simp add: new_Set_def set_foldl_Set_add)

lemma slice_0: "slice 0 n xs = take n xs"
  by (simp add: slice_def)

lemma mergeBatchAnalyses_fields:
  "summary (mergeBatchAnalyses ps) = join '' '' (map summary ps)"
  "keyAchievements (mergeBatchAnalyses ps) = take 5 (new_Set (concat (map keyAchievements ps)))"
  "technicalSkills (mergeBatchAnalyses ps) = take 5 (new_Set (concat (map technicalSkills ps)))"
  "businessImpact (mergeBatchAnalyses ps) = take 5 (new_Set (concat (map businessImpact ps)))"
  "problemSolving (mergeBatchAnalyses ps) = take 5 (new_Set (concat (map problemSolving ps)))"
  "leadership (mergeBatchAnalyses ps) = take 5 (new_Set (concat (map leadership ps)))"
  by (simp_all add: mergeBatchAnalyses_def Let_def foldl_push_all slice_0)

text \<open>
  Claim C8. Merging the empty sequence of partial reports gives the report with an empty
  summary and five empty lists. It is a result, not an error: the merge under its
  declared type has no failure path, and the merge at run time returns the same report.
\<close>

theorem merge_empty:
  "mergeBatchAnalyses [] =
     \<lparr> summary = [], keyAchievements = [], technicalSkills = [], businessImpact = [],
       problemSolving = [], leadership = [] \<rparr>
   \<and> mergeBatchValues [] =
     Inr \<lparr> summaryValue = [], keyAchievementsValue = [], technicalSkillsValue = [],
           businessImpactValue = [], problemSolvingValue = [], leadershipValue = [] \<rparr>"
  by (simp add: mergeBatchAnalyses_def mergeBatchValues_def joinValues_def Let_def slice_def
        new_Set_def new_SetValue_def)

text \<open>
  Claim C2. For every sequence of partial reports the merged summary is the partial
  summaries joined by one space in batch order; each of the five list fields is the
  pooled list, deduplicated keeping first occurrences, cut to its first five entries;
  so each has at most five entries and no duplicates.
\<close>

theorem merge_correct:
  "summary (mergeBatchAnalyses ps) = join '' '' (map summary ps)
   \<and> keyAchievements (mergeBatchAnalyses ps) = mergedField keyAchievements ps
   \<and> technicalSkills (mergeBatchAnalyses ps) = mergedField technicalSkills ps
   \<and> businessImpact (mergeBatchAnalyses ps) = mergedField businessImpact ps
   \<and> problemSolving (mergeBatchAnalyses ps) = mergedField problemSolving ps
   \<and> leadership (mergeBatchAnalyses ps) = mergedField leadership ps
   \<and> length (keyAchievements (mergeBatchAnalyses ps)) \<le> 5
   \<and> length (technicalSkills (mergeBatchAnalyses ps)) \<le> 5
   \<and> length (businessImpact (mergeBatchAnalyses ps)) \<le> 5
   \<and> length (problemSolving (mergeBatchAnalyses ps)) \<le> 5
   \<and> length (leadership (mergeBatchAnalyses ps)) \<le> 5
   \<and> distinct (keyAchievements (mergeBatchAnalyses ps))
   \<and> distinct (technicalSkills (mergeBatchAnalyses ps))
   \<and> distinct (businessImpact (mergeBatchAnalyses ps))
   \<and> distinct (problemSolving (mergeBatchAnalyses ps))
   \<and> distinct (leadership (mergeBatchAnalyses ps))"
  by (simp add: mergeBatchAnalyses_fields mergedField_def new_Set_dedup [symmetric]
        distinct_new_Set)

lemma length_new_Set: "length (new_Set xs) = card (set xs)"
  using distinct_card [OF distinct_new_Set, of xs] by (simp add: set_new_Set)

lemma merge_two_field:
  assumes "card (set xs \<union> set ys) \<le> 5"
  shows "set (take 5 (new_Set (xs @ ys))) = set xs \<union> set ys"
proof -
  from assms have "length (new_Set (xs @ ys)) \<le> 5" by (simp add: length_new_Set)
  then show ?thesis by (simp add: set_new_Set)
qed

text \<open>
  Claim C6, amended. For partial reports \<open>p1\<close> and \<open>p2\<close> and each list field whose two
  lists together hold at most five distinct strings, that field of the merge of
  \<open>[p1, p2]\<close> and of the merge of \<open>[p2, p1]\<close> contain the same set of strings.
\<close>

theorem merge_commutes_untruncated:
  "(card (set (keyAchievements p1) \<union> set (keyAchievements p2)) \<le> 5 \<longrightarrow>
      set (keyAchievements (mergeBatchAnalyses [p1, p2]))
        = set (keyAchievements (mergeBatchAnalyses [p2, p1])))
   \<and> (card (set (technicalSkills p1) \<union> set (technicalSkills p2)) \<le> 5 \<longrightarrow>
      set (technicalSkills (mergeBatchAnalyses [p1, p2]))
        = set (technicalSkills (mergeBatchAnalyses [p2, p1])))
   \<and> (card (set (businessImpact p1) \<union> set (businessImpact p2)) \<le> 5 \<longrightarrow>
      set (businessImpact (mergeBatchAnalyses [p1, p2]))
        = set (businessImpact (mergeBatchAnalyses [p2, p1])))
   \<and> (card (set (problemSolving p1) \<union> set (problemSolving p2)) \<le> 5 \<longrightarrow>
      set (problemSolving (mergeBatchAnalyses [p1, p2]))
        = set (problemSolving (mergeBatchAnalyses [p2, p1])))
   \<and> (card (set (leadership p1) \<union> set (leadership p2)) \<le> 5 \<longrightarrow>
      set (leadership (mergeBatchAnalyses [p1, p2]))
        = set (leadership (mergeBatchAnalyses [p2, p1])))"
  using merge_two_field [of "keyAchievements p1" "keyAchievements p2"]
    merge_two_field [of "keyAchievements p2" "keyAchievements p1"]
    merge_two_field [of "technicalSkills p1" "technicalSkills p2"]
    merge_two_field [of "technicalSkills p2" "technicalSkills p1"]
    merge_two_field [of "businessImpact p1" "businessImpact p2"]
    merge_two_field [of "businessImpact p2" "businessImpact p1"]
    merge_two_field [of "problemSolving p1" "problemSolving p2"]
    merge_two_field [of "problemSolving p2" "problemSolving p1"]
    merge_two_field [of "leadership p1" "leadership p2"]
    merge_two_field [of "leadership p2" "leadership p1"]
  by (simp add: mergeBatchAnalyses_fields Un_commute)

text \<open>
  Claim C6 as stated fails once the pooled list is cut to five entries: with five
  achievements in one report and a sixth in the other, each order keeps a string the
  other order drops.
\<close>

theorem merge_commutes_counterexample:
  "keyAchievements (mergeBatchAnalyses [reportA, reportB]) = [''a1'', ''a2'', ''a3'', ''a4'', ''a5'']
   \<and> keyAchievements (mergeBatchAnalyses [reportB, reportA]) = [''b1'', ''a1'', ''a2'', ''a3'', ''a4'']
   \<and> set (keyAchievements (mergeBatchAnalyses [reportA, reportB]))
       \<noteq> set (keyAchievements (mergeBatchAnalyses [reportB, reportA]))"
proof -
  have ab: "keyAchievements (mergeBatchAnalyses [reportA, reportB])
            = [''a1'', ''a2'', ''a3'', ''a4'', ''a5'']" by code_simp
  have ba: "keyAchievements (mergeBatchAnalyses [reportB, reportA])
            = [''b1'', ''a1'', ''a2'', ''a3'', ''a4'']" by code_simp
  have "''b1'' \<notin> set [''a1'', ''a2'', ''a3'', ''a4'', ''a5'']" by simp
  moreover have "''b1'' \<in> set [''b1'', ''a1'', ''a2'', ''a3'', ''a4'']" by simp
  ultimately have "set [''a1'', ''a2'', ''a3'', ''a4'', ''a5'']
      \<noteq> set [''b1'', ''a1'', ''a2'', ''a3'', ''a4'']" by metis
  with ab ba show ?thesis by simp
qed

theorem merge_commutes_untruncated_witness:
  "card (set (technicalSkills reportA) \<union> set (technicalSkills reportB)) \<le> 5
   \<and> technicalSkills (mergeBatchAnalyses [reportA, reportB])
       = [''TypeScript'', ''Git'', ''Node'']
   \<and> technicalSkills (mergeBatchAnalyses [reportB, reportA])
       = [''Node'', ''TypeScript'', ''Git'']
   \<and> set (technicalSkills (mergeBatchAnalyses [reportA, reportB]))
       = set (technicalSkills (mergeBatchAnalyses [reportB, reportA]))"
proof -
  have c: "card (set (technicalSkills reportA) \<union> set (technicalSkills reportB)) \<le> 5"
    by (simp add: reportA_def reportB_def card_insert_if)
  have ab: "technicalSkills (mergeBatchAnalyses [reportA, reportB])
       = [''TypeScript'', ''Git'', ''Node'']"
    by code_simp
  have ba: "technicalSkills (mergeBatchAnalyses [reportB, reportA])
       = [''Node'', ''TypeScript'', ''Git'']"
    by code_simp
  from merge_commutes_untruncated [of reportA reportB] c ab ba show ?thesis by simp
qed


section \<open>Properties of the batching\<close>

lemma slice_length: "i < length xs \<Longrightarrow> length (slice i (i + n) xs) = min n (length xs - i)"
  by (simp add: slice_def)

lemma concat_batchLoop:
  "concat (batchLoop i commits batches) = concat batches @ drop i commits"
proof (induction i commits batches rule: batchLoop.induct)
  case (1 i commits batches)
  show ?case
  proof (cases "i < length commits")
    case True
    have "take batchSize (drop i commits) @ drop (i + batchSize) commits = drop i commits"
      by (metis add.commute append_take_drop_id drop_drop)
    with True "1.IH" show ?thesis
      by (simp add: batchLoop.simps [of i] slice_def)
  next
    case False
    then show ?thesis by (simp add: batchLoop.simps [of i])
  qed
qed

lemma sizes_batchLoop:
  "\<forall>b\<in>set batches. 1 \<le> length b \<and> length b \<le> 20 \<Longrightarrow>
   \<forall>b\<in>set (batchLoop i commits batches). 1 \<le> length b \<and> length b \<le> 20"
proof (induction i commits batches rule: batchLoop.induct)
  case (1 i commits batches)
  show ?case
  proof (cases "i < length commits")
    case True
    then have "1 \<le> length (slice i (i + batchSize) commits)
        \<and> length (slice i (i + batchSize) commits) \<le> 20"
      by (simp add: slice_length batchSize_def)
    with True "1.IH" "1.prems" show ?thesis
      by (simp add: batchLoop.simps [of i])
  next
    case False
    with "1.prems" show ?thesis by (simp add: batchLoop.simps [of i])
  qed
qed

lemma full_batchLoop:
  "\<forall>b\<in>set batches. length b = 20 \<Longrightarrow>
   \<forall>b\<in>set (butlast (batchLoop i commits batches)). length b = 20"
proof (induction i commits batches rule: batchLoop.induct)
  case (1 i commits batches)
  show ?case
  proof (cases "i < length commits")
    case True
    note lt = True
    show ?thesis
    proof (cases "i + batchSize < length commits")
      case True
      then have "length (slice i (i + batchSize) commits) = 20"
        using lt by (simp add: slice_length batchSize_def)
      with lt "1.IH" "1.prems" show ?thesis
        by (simp add: batchLoop.simps [of i])
    next
      case False
      then have "batchLoop i commits batches = batches @ [slice i (i + batchSize) commits]"
        using lt by (simp add: batchLoop.simps [of i] batchLoop.simps [of "i + batchSize"])
      with "1.prems" show ?thesis by simp
    qed
  next
    case False
    with "1.prems" show ?thesis
      by (auto simp: batchLoop.simps [of i] dest: in_set_butlastD)
  qed
qed

lemma batches_45:
  assumes "length commits = 45"
  shows "map length (makeBatches commits) = [20, 20, 5]"
proof -
  have "makeBatches commits
        = [slice 0 20 commits, slice 20 40 commits, slice 40 60 commits]"
    using assms
    by (simp add: makeBatches_def batchSize_def batchLoop.simps [of 0]
          batchLoop.simps [of 20] batchLoop.simps [of 40] batchLoop.simps [of 60])
  with assms show ?thesis by (simp add: slice_def)
qed

text \<open>
  Claim C3. For every commit sequence the batches, concatenated, give the sequence back;
  every batch has between 1 and 20 commits; every batch but the last has exactly 20; and
  45 commits give three batches of sizes 20, 20 and 5.
\<close>

theorem batch_partition:
  "concat (makeBatches commits) = commits
   \<and> (\<forall>b\<in>set (makeBatches commits). 1 \<le> length b \<and> length b \<le> 20)
   \<and> (\<forall>b\<in>set (butlast (makeBatches commits)). length b = 20)
   \<and> (length commits = 45 \<longrightarrow> map length (makeBatches commits) = [20, 20, 5])"
  using concat_batchLoop [of 0 commits "[]"] sizes_batchLoop [of "[]" 0 commits]
    full_batchLoop [of "[]" 0 commits] batches_45 [of commits]
  by (simp add: makeBatches_def)

theorem batch_partition_witness:
  "length [0 ..< 45 :: nat] = 45
   \<and> makeBatches [0 ..< 45 :: nat] = [[0 ..< 20], [20 ..< 40], [40 ..< 45]]
   \<and> concat (makeBatches [0 ..< 45 :: nat]) = [0 ..< 45]
   \<and> map length (makeBatches [0 ..< 45 :: nat]) = [20, 20, 5]"
proof -
  have m: "makeBatches [0 ..< 45 :: nat] = [[0 ..< 20], [20 ..< 40], [40 ..< 45]]"
    by code_simp
  from batch_partition [of "[0 ..< 45 :: nat]"] m show ?thesis by simp
qed


section \<open>The typed merge and the merge at run time agree\<close>

lemma summaries_toJson:
  "summaries (map toJson rs) = Inr (map (\<lambda>r. Some (JStr (summary r))) rs)"
  by (induction rs) (simp_all add: toJson_def getProp_def)

lemma optionStrings_strings:
  "optionStrings (map (\<lambda>r. Some (JStr (summary r))) rs) = Inr (map summary rs)"
  by (induction rs) simp_all

lemma joinValues_strings:
  "joinValues sep (map (\<lambda>r. Some (JStr (summary r))) rs) = Inr (join sep (map summary rs))"
  by (simp add: joinValues_def optionStrings_strings)

lemma pushValues_toJson:
  "pushValues m (toJson r) =
     Inr (m\<lparr> keyAchievementsValue := keyAchievementsValue m @ map JStr (keyAchievements r),
             technicalSkillsValue := technicalSkillsValue m @ map JStr (technicalSkills r),
             businessImpactValue := businessImpactValue m @ map JStr (businessImpact r),
             problemSolvingValue := problemSolvingValue m @ map JStr (problemSolving r),
             leadershipValue := leadershipValue m @ map JStr (leadership r) \<rparr>)"
  by (simp add: pushValues_def toJson_def getProp_def)

lemma forEachPush_toJson:
  "forEachPush (toValue m) (map toJson rs) = Inr (toValue (foldl push_all m rs))"
proof (induction rs arbitrary: m)
  case Nil
  show ?case by simp
next
  case (Cons r rs)
  have "pushValues (toValue m) (toJson r) = Inr (toValue (push_all m r))"
    by (simp add: pushValues_toJson toValue_def push_all_def)
  with Cons show ?case by simp
qed

lemma Set_addValue_JStr:
  "Set_addValue (map JStr acc) (JStr x) = map JStr (Set_add acc x)"
proof -
  have "list_ex (\<lambda>y. sameValueZero y (JStr x)) (map JStr acc) = (x \<in> set acc)"
    by (induction acc) auto
  then show ?thesis by (simp add: Set_addValue_def Set_add_def)
qed

lemma foldl_Set_addValue_JStr:
  "foldl Set_addValue (map JStr acc) (map JStr xs) = map JStr (foldl Set_add acc xs)"
  by (induction xs arbitrary: acc) (simp_all add: Set_addValue_JStr)

lemma new_SetValue_JStr: "new_SetValue (map JStr xs) = map JStr (new_Set xs)"
  using foldl_Set_addValue_JStr [of "[]" xs] by (simp add: new_SetValue_def new_Set_def)

lemma slice_map: "slice a b (map f xs) = map f (slice a b xs)"
  by (simp add: slice_def take_map drop_map)

lemma mergeBatchValues_typed:
  "mergeBatchValues (map toJson rs) = Inr (toValue (mergeBatchAnalyses rs))"
proof -
  let ?m0 = "\<lparr> summary = join '' '' (map summary rs),
                keyAchievements = [], technicalSkills = [], businessImpact = [],
                problemSolving = [], leadership = [] \<rparr>"
  have start: "\<lparr> summaryValue = join '' '' (map summary rs),
            keyAchievementsValue = [], technicalSkillsValue = [],
            businessImpactValue = [], problemSolvingValue = [],
            leadershipValue = [] \<rparr> = toValue ?m0"
    by (simp add: toValue_def)
  show ?thesis
    unfolding mergeBatchValues_def
    by (simp only: summaries_toJson joinValues_strings sum.case start forEachPush_toJson)
       (simp add: toValue_def mergeBatchAnalyses_def Let_def new_SetValue_JStr slice_map)
qed


section \<open>Properties of the project context builder\<close>

lemma toString_convertible:
  "(\<exists>s. toString v = Inr s) = convertible v"
  "(\<exists>ss. elementStrings xs = Inr ss) = list_all convertible xs"
  by (induction v and xs rule: toString_elementStrings.induct)
     (auto split: sum.splits if_splits)

lemma orText_Inl:
  "(\<exists>e. orText (getProp v key) d = Inl e) = cannotRender v key"
proof (cases "getProp v key")
  case None
  then show ?thesis by (simp add: orText_def cannotRender_def)
next
  case (Some x)
  have "(\<exists>e. toString x = Inl e) = (\<not> convertible x)"
    using toString_convertible(1) [of x] by (cases "toString x") auto
  with Some show ?thesis by (auto simp: orText_def cannotRender_def)
qed

lemma renderContext_Inl:
  "(\<exists>e. renderContext lit v = Inl e)
     = (v = JNull \<or> cannotRender v ''name'' \<or> cannotRender v ''description'')"
proof -
  have n: "cannotRender v ''name'' = (\<exists>e. orText (getProp v ''name'') ''Unknown'' = Inl e)"
    by (rule orText_Inl [symmetric])
  have d: "cannotRender v ''description''
      = (\<exists>e. orText (getProp v ''description'') ''No description'' = Inl e)"
    by (rule orText_Inl [symmetric])
  show ?thesis
    unfolding n d renderContext_def by (auto split: sum.splits)
qed

lemma getProjectContext_total: "\<exists>context. getProjectContext lit env = Inr context"
  by (simp add: getProjectContext_def split: sum.split option.split)

lemma getProjectContext_parsed:
  assumes "packageJsonExists env" "catPackageJson env = Some file"
    "JSON_parse env file = Some packageJson"
  shows "getProjectContext lit env =
     (case renderContext lit packageJson of
        Inl e \<Rightarrow> Inr (fallbackText lit) | Inr context \<Rightarrow> Inr context)"
  using assms by (simp add: getProjectContext_def tryProjectContext_def split: sum.split)

text \<open>
  Claim C9, amended. \<^verbatim>\<open>getProjectContext\<close> returns a text for every environment. The text
  is the fallback when \<^verbatim>\<open>package.json\<close> is missing, cannot be read or is not valid JSON,
  and also when building the context throws: the parsed value is \<^verbatim>\<open>null\<close>, or its name
  or description cannot be converted to a string. Otherwise the text is built from the
  name, the description, at most 10 names of \<^verbatim>\<open>dependencies\<close> and at most 5 names of
  \<^verbatim>\<open>devDependencies\<close>.
\<close>

theorem project_context_never_raises:
  "(\<exists>context. getProjectContext lit env = Inr context)
   \<and> (\<not> packageJsonExists env \<longrightarrow> getProjectContext lit env = Inr (fallbackText lit))
   \<and> (packageJsonExists env \<and> catPackageJson env = None \<longrightarrow>
        getProjectContext lit env = Inr (fallbackText lit))
   \<and> (packageJsonExists env \<and> catPackageJson env = Some file \<and> JSON_parse env file = None \<longrightarrow>
        getProjectContext lit env = Inr (fallbackText lit))
   \<and> (packageJsonExists env \<and> catPackageJson env = Some file
        \<and> JSON_parse env file = Some packageJson
        \<and> (packageJson = JNull \<or> cannotRender packageJson ''name''
             \<or> cannotRender packageJson ''description'') \<longrightarrow>
        getProjectContext lit env = Inr (fallbackText lit))
   \<and> (packageJsonExists env \<and> catPackageJson env = Some file
        \<and> JSON_parse env file = Some packageJson
        \<and> packageJson \<noteq> JNull \<and> \<not> cannotRender packageJson ''name''
        \<and> \<not> cannotRender packageJson ''description'' \<longrightarrow>
        (\<exists>name description deps devDeps.
           orText (getProp packageJson ''name'') ''Unknown'' = Inr name
           \<and> orText (getProp packageJson ''description'') ''No description'' = Inr description
           \<and> deps = take 10 (keysOrEmpty (getProp packageJson ''dependencies''))
           \<and> devDeps = take 5 (keysOrEmpty (getProp packageJson ''devDependencies''))
           \<and> length deps \<le> 10 \<and> length devDeps \<le> 5
           \<and> getProjectContext lit env =
               Inr (labelName lit @ name @ [LF]
                    @ labelDescription lit @ description @ [LF]
                    @ labelDependencies lit @ join '', '' deps @ [LF]
                    @ labelDevDependencies lit @ join '', '' devDeps)))"
proof (intro conjI impI)
  show "\<exists>context. getProjectContext lit env = Inr context"
    by (rule getProjectContext_total)
  show "getProjectContext lit env = Inr (fallbackText lit)" if "\<not> packageJsonExists env"
    using that by (simp add: getProjectContext_def tryProjectContext_def)
  show "getProjectContext lit env = Inr (fallbackText lit)"
    if "packageJsonExists env \<and> catPackageJson env = None"
    using that by (simp add: getProjectContext_def tryProjectContext_def)
  show "getProjectContext lit env = Inr (fallbackText lit)"
    if "packageJsonExists env \<and> catPackageJson env = Some file \<and> JSON_parse env file = None"
    using that by (simp add: getProjectContext_def tryProjectContext_def)
  show "getProjectContext lit env = Inr (fallbackText lit)"
    if h: "packageJsonExists env \<and> catPackageJson env = Some file
        \<and> JSON_parse env file = Some packageJson
        \<and> (packageJson = JNull \<or> cannotRender packageJson ''name''
             \<or> cannotRender packageJson ''description'')"
  proof -
    from h obtain e where "renderContext lit packageJson = Inl e"
      using renderContext_Inl [of lit packageJson] by blast
    with h show ?thesis by (simp add: getProjectContext_parsed)
  qed
  show "\<exists>name description deps devDeps.
           orText (getProp packageJson ''name'') ''Unknown'' = Inr name
           \<and> orText (getProp packageJson ''description'') ''No description'' = Inr description
           \<and> deps = take 10 (keysOrEmpty (getProp packageJson ''dependencies''))
           \<and> devDeps = take 5 (keysOrEmpty (getProp packageJson ''devDependencies''))
           \<and> length deps \<le> 10 \<and> length devDeps \<le> 5
           \<and> getProjectContext lit env =
               Inr (labelName lit @ name @ [LF]
                    @ labelDescription lit @ description @ [LF]
                    @ labelDependencies lit @ join '', '' deps @ [LF]
                    @ labelDevDependencies lit @ join '', '' devDeps)"
    if h: "packageJsonExists env \<and> catPackageJson env = Some file
        \<and> JSON_parse env file = Some packageJson
        \<and> packageJson \<noteq> JNull \<and> \<not> cannotRender packageJson ''name''
        \<and> \<not> cannotRender packageJson ''description''"
  proof -
    from h obtain name where n: "orText (getProp packageJson ''name'') ''Unknown'' = Inr name"
      using orText_Inl [of packageJson "''name''" "''Unknown''"]
      by (cases "orText (getProp packageJson ''name'') ''Unknown''") auto
    from h obtain description where
      d: "orText (getProp packageJson ''description'') ''No description'' = Inr description"
      using orText_Inl [of packageJson "''description''" "''No description''"]
      by (cases "orText (getProp packageJson ''description'') ''No description''") auto
    from h n d have "getProjectContext lit env =
        Inr (labelName lit @ name @ [LF]
             @ labelDescription lit @ description @ [LF]
             @ labelDependencies lit
             @ join '', '' (take 10 (keysOrEmpty (getProp packageJson ''dependencies''))) @ [LF]
             @ labelDevDependencies lit
             @ join '', '' (take 5 (keysOrEmpty (getProp packageJson ''devDependencies''))))"
      by (simp add: getProjectContext_parsed renderContext_def slice_def)
    with n d show ?thesis by simp
  qed
qed

theorem project_context_never_raises_witness:
  "getProjectContext sampleLiterals (packageEnv \<lparr> packageJsonExists := False \<rparr>)
       = Inr ''context unavailable''
   \<and> getProjectContext sampleLiterals (packageEnv \<lparr> catPackageJson := None \<rparr>)
       = Inr ''context unavailable''
   \<and> getProjectContext sampleLiterals (packageEnv \<lparr> catPackageJson := Some ''{name:'' \<rparr>)
       = Inr ''context unavailable''
   \<and> cannotRender toStringPackageValue ''name''
   \<and> getProjectContext sampleLiterals toStringPackageEnv = Inr ''context unavailable''
   \<and> packageValue \<noteq> JNull \<and> \<not> cannotRender packageValue ''name''
   \<and> \<not> cannotRender packageValue ''description''
   \<and> getProjectContext sampleLiterals packageEnv
       = Inr (''name: git-log-ai'' @ [LF] @ ''description: No description'' @ [LF]
              @ ''dependencies: openai, dotenv'' @ [LF] @ ''devDependencies: '')"
proof -
  have a: "\<not> packageJsonExists (packageEnv \<lparr> packageJsonExists := False \<rparr>)" by simp
  have b: "packageJsonExists (packageEnv \<lparr> catPackageJson := None \<rparr>)
      \<and> catPackageJson (packageEnv \<lparr> catPackageJson := None \<rparr>) = None"
    by (simp add: packageEnv_def)
  have c: "packageJsonExists (packageEnv \<lparr> catPackageJson := Some ''{name:'' \<rparr>)
      \<and> catPackageJson (packageEnv \<lparr> catPackageJson := Some ''{name:'' \<rparr>) = Some ''{name:''
      \<and> JSON_parse (packageEnv \<lparr> catPackageJson := Some ''{name:'' \<rparr>) ''{name:'' = None"
    by (simp add: packageEnv_def packageText_def)
  have t: "packageJsonExists toStringPackageEnv
      \<and> catPackageJson toStringPackageEnv = Some toStringPackageText
      \<and> JSON_parse toStringPackageEnv toStringPackageText = Some toStringPackageValue
      \<and> (toStringPackageValue = JNull \<or> cannotRender toStringPackageValue ''name''
           \<or> cannotRender toStringPackageValue ''description'')"
    by (simp add: toStringPackageEnv_def toStringPackageValue_def cannotRender_def getProp_def)
  have t': "cannotRender toStringPackageValue ''name''"
    by (simp add: toStringPackageValue_def cannotRender_def getProp_def)
  have d: "packageJsonExists packageEnv \<and> catPackageJson packageEnv = Some packageText
      \<and> JSON_parse packageEnv packageText = Some packageValue \<and> packageValue \<noteq> JNull
      \<and> \<not> cannotRender packageValue ''name''
      \<and> \<not> cannotRender packageValue ''description''"
    by (simp add: packageEnv_def packageValue_def cannotRender_def getProp_def)
  have e: "getProjectContext sampleLiterals packageEnv
       = Inr (''name: git-log-ai'' @ [LF] @ ''description: No description'' @ [LF]
              @ ''dependencies: openai, dotenv'' @ [LF] @ ''devDependencies: '')"
    by code_simp
  have f: "fallbackText sampleLiterals = ''context unavailable''"
    by (simp add: sampleLiterals_def)
  from project_context_never_raises
      [of sampleLiterals "packageEnv \<lparr> packageJsonExists := False \<rparr>"] a
    project_context_never_raises [of sampleLiterals "packageEnv \<lparr> catPackageJson := None \<rparr>"] b
    project_context_never_raises [of sampleLiterals
      "packageEnv \<lparr> catPackageJson := Some ''{name:'' \<rparr>" "''{name:''"] c
    project_context_never_raises
      [of sampleLiterals toStringPackageEnv toStringPackageText toStringPackageValue] t t'
    project_context_never_raises [of sampleLiterals packageEnv packageText packageValue] d e f
  show ?thesis by simp
qed

text \<open>
  Claim C9 as stated fails: a \<^verbatim>\<open>package.json\<close> that is read and parsed does not always
  give a built context. The file \<^verbatim>\<open>null\<close> parses to \<^verbatim>\<open>null\<close>, reading its name throws,
  and the fallback is returned; so it is for a name that is an object with a
  \<^verbatim>\<open>toString\<close> property of its own.
\<close>

theorem project_context_counterexample:
  "packageJsonExists nullPackageEnv
   \<and> catPackageJson nullPackageEnv = Some ''null''
   \<and> JSON_parse nullPackageEnv ''null'' = Some JNull
   \<and> getProjectContext sampleLiterals nullPackageEnv = Inr (fallbackText sampleLiterals)
   \<and> packageJsonExists toStringPackageEnv
   \<and> catPackageJson toStringPackageEnv = Some toStringPackageText
   \<and> JSON_parse toStringPackageEnv toStringPackageText = Some toStringPackageValue
   \<and> getProjectContext sampleLiterals toStringPackageEnv = Inr (fallbackText sampleLiterals)"
proof -
  have "getProjectContext sampleLiterals nullPackageEnv = Inr (fallbackText sampleLiterals)"
    by code_simp
  moreover have
    "getProjectContext sampleLiterals toStringPackageEnv = Inr (fallbackText sampleLiterals)"
    by code_simp
  ultimately show ?thesis
    by (simp add: nullPackageEnv_def toStringPackageEnv_def)
qed


section \<open>Properties of the batch analyzer\<close>

lemma analyzeBatch_ok:
  assumes "createCompletion env (makePrompt batch num totalBatches ctx) = Content (Some text)"
    "text \<noteq> []" "JSON_parse env text = Some v"
  shows "analyzeBatch env batch num totalBatches ctx = Inr v"
  using assms by (simp add: analyzeBatch_def tryBatch_def)

lemma analyzeBatch_unusable:
  assumes "createCompletion env (makePrompt batch num totalBatches ctx) = Content None
     \<or> createCompletion env (makePrompt batch num totalBatches ctx) = Content (Some [])
     \<or> (\<exists>text. createCompletion env (makePrompt batch num totalBatches ctx) = Content (Some text)
           \<and> JSON_parse env text = None)"
  shows "analyzeBatch env batch num totalBatches ctx = Inl (BatchFailed num NoResponse)
     \<or> analyzeBatch env batch num totalBatches ctx = Inl (BatchFailed num SyntaxError)"
  using assms by (auto simp: analyzeBatch_def tryBatch_def split: if_splits)

lemma analyzeLoop_first_failure:
  assumes "i \<le> n" "n < length batches"
    and ok: "\<forall>j. i \<le> j \<and> j < n \<longrightarrow>
             (\<exists>v. analyzeBatch env (batches ! j) (j + 1) (length batches) ctx = Inr v)"
    and bad: "analyzeBatch env (batches ! n) (n + 1) (length batches) ctx = Inl e"
  shows "analyzeLoop env ctx batches i acc = Inl e"
  using assms
proof (induction "n - i" arbitrary: i acc)
  case 0
  then have "i = n" by simp
  with "0.prems" show ?case by (simp add: analyzeLoop.simps [of _ _ _ n])
next
  case (Suc d)
  then have lt: "i < n" by simp
  with Suc.prems obtain v where
    v: "analyzeBatch env (batches ! i) (i + 1) (length batches) ctx = Inr v" by auto
  have "analyzeLoop env ctx batches (i + 1) (acc @ [v]) = Inl e"
  proof (rule Suc.hyps(1))
    show "d = n - (i + 1)" using Suc.hyps(2) by simp
    show "i + 1 \<le> n" using lt by simp
    show "n < length batches" by (rule Suc.prems(2))
    show "\<forall>j. i + 1 \<le> j \<and> j < n \<longrightarrow>
             (\<exists>v. analyzeBatch env (batches ! j) (j + 1) (length batches) ctx = Inr v)"
      using Suc.prems(3) by simp
    show "analyzeBatch env (batches ! n) (n + 1) (length batches) ctx = Inl e"
      by (rule Suc.prems(4))
  qed
  with v lt Suc.prems(2) show ?case by (simp add: analyzeLoop.simps [of _ _ _ i])
qed

text \<open>
  Claim C4, amended. With an API key set, let batch \<open>n\<close> (counted from 0) be the first for
  which the service returns no content, empty content, or text that \<^verbatim>\<open>JSON.parse\<close>
  rejects, every earlier batch having returned text that parses. Then the whole run
  fails with the error that carries the batch number \<open>n + 1\<close>; the result is that error
  alone, so nothing of the earlier batches reaches the caller.
\<close>

theorem analysis_failure_total:
  assumes key: "OPENAI_API_KEY env = Some k" "k \<noteq> []"
    and ctx: "getProjectContext lit env = Inr ctx"
    and n: "n < length (makeBatches commits)"
    and earlier: "\<forall>j<n. \<exists>text v. batchResponse env ctx (makeBatches commits) j = Content (Some text)
                    \<and> text \<noteq> [] \<and> JSON_parse env text = Some v"
    and failing: "batchResponse env ctx (makeBatches commits) n = Content None
       \<or> batchResponse env ctx (makeBatches commits) n = Content (Some [])
       \<or> (\<exists>text. batchResponse env ctx (makeBatches commits) n = Content (Some text)
             \<and> JSON_parse env text = None)"
  shows "analyzeCommitsWithGPT lit env commits = Inl (BatchFailed (n + 1) NoResponse)
     \<or> analyzeCommitsWithGPT lit env commits = Inl (BatchFailed (n + 1) SyntaxError)"
proof -
  let ?bs = "makeBatches commits"
  have ok: "\<forall>j. 0 \<le> j \<and> j < n \<longrightarrow>
      (\<exists>v. analyzeBatch env (?bs ! j) (j + 1) (length ?bs) ctx = Inr v)"
  proof (intro allI impI)
    fix j assume "0 \<le> j \<and> j < n"
    with earlier obtain t v where
      "batchResponse env ctx ?bs j = Content (Some t)" "t \<noteq> []"
      "JSON_parse env t = Some v" by blast
    then have "analyzeBatch env (?bs ! j) (j + 1) (length ?bs) ctx = Inr v"
      unfolding batchResponse_def by (rule analyzeBatch_ok)
    then show "\<exists>v. analyzeBatch env (?bs ! j) (j + 1) (length ?bs) ctx = Inr v" by blast
  qed
  from analyzeBatch_unusable [of env "?bs ! n" "n + 1" "length ?bs" ctx] failing
  consider "analyzeBatch env (?bs ! n) (n + 1) (length ?bs) ctx = Inl (BatchFailed (n + 1) NoResponse)"
    | "analyzeBatch env (?bs ! n) (n + 1) (length ?bs) ctx = Inl (BatchFailed (n + 1) SyntaxError)"
    unfolding batchResponse_def by blast
  then show ?thesis
  proof cases
    case 1
    from analyzeLoop_first_failure [OF _ n ok 1, of "[]"]
    have "analyzeLoop env ctx ?bs 0 [] = Inl (BatchFailed (n + 1) NoResponse)" by simp
    with key ctx show ?thesis by (simp add: analyzeCommitsWithGPT_def)
  next
    case 2
    from analyzeLoop_first_failure [OF _ n ok 2, of "[]"]
    have "analyzeLoop env ctx ?bs 0 [] = Inl (BatchFailed (n + 1) SyntaxError)" by simp
    with key ctx show ?thesis by (simp add: analyzeCommitsWithGPT_def)
  qed
qed

theorem analysis_failure_total_witness:
  "analyzeCommitsWithGPT sampleLiterals secondBatchFailsEnv twentyOneCommits
     = Inl (BatchFailed 2 SyntaxError)
   \<and> map length (makeBatches twentyOneCommits) = [20, 1]
   \<and> batchResponse secondBatchFailsEnv ''context unavailable'' (makeBatches twentyOneCommits) 0
       = Content (Some summaryText)
   \<and> JSON_parse secondBatchFailsEnv summaryText = Some summaryValue0
   \<and> batchResponse secondBatchFailsEnv ''context unavailable'' (makeBatches twentyOneCommits) 1
       = Content (Some ''Sorry, I cannot'')
   \<and> JSON_parse secondBatchFailsEnv ''Sorry, I cannot'' = None"
proof -
  let ?env = secondBatchFailsEnv
  let ?bs = "makeBatches twentyOneCommits"
  have key: "OPENAI_API_KEY ?env = Some ''sk-test''" "''sk-test'' \<noteq> []"
    by (simp_all add: secondBatchFailsEnv_def)
  have ctx: "getProjectContext sampleLiterals ?env = Inr ''context unavailable''"
    by code_simp
  have len: "map length ?bs = [20, 1]" by code_simp
  then have "length (map length ?bs) = 2" by simp
  then have n: "1 < length ?bs" by simp
  have r0: "batchResponse ?env ''context unavailable'' ?bs 0 = Content (Some summaryText)"
    by (simp add: batchResponse_def secondBatchFailsEnv_def makePrompt_def)
  have p0: "JSON_parse ?env summaryText = Some summaryValue0"
    by (simp add: secondBatchFailsEnv_def)
  have t0: "summaryText \<noteq> []" by (simp add: summaryText_def)
  have r1: "batchResponse ?env ''context unavailable'' ?bs 1 = Content (Some ''Sorry, I cannot'')"
    by (simp add: batchResponse_def secondBatchFailsEnv_def makePrompt_def)
  have p1: "JSON_parse ?env ''Sorry, I cannot'' = None"
    by (simp add: secondBatchFailsEnv_def summaryText_def)
  have earlier: "\<forall>j<1. \<exists>text v. batchResponse ?env ''context unavailable'' ?bs j = Content (Some text)
      \<and> text \<noteq> [] \<and> JSON_parse ?env text = Some v"
    using r0 p0 t0 by auto
  have failing: "batchResponse ?env ''context unavailable'' ?bs 1 = Content None
       \<or> batchResponse ?env ''context unavailable'' ?bs 1 = Content (Some [])
       \<or> (\<exists>text. batchResponse ?env ''context unavailable'' ?bs 1 = Content (Some text)
             \<and> JSON_parse ?env text = None)"
    using r1 p1 by auto
  have run: "analyzeCommitsWithGPT sampleLiterals ?env twentyOneCommits
     = Inl (BatchFailed 2 SyntaxError)" by code_simp
  from analysis_failure_total [OF key ctx n earlier failing] run len r0 p0 r1 p1
  show ?thesis by simp
qed

text \<open>
  Claim C4 as stated fails for text that parses but is not of the report shape, since
  nothing checks the shape. A response with the five lists and no summary is merged
  into a report; the response \<^verbatim>\<open>{}\<close> makes the merge throw, and that error names no
  batch.
\<close>

theorem analysis_failure_counterexample:
  "batchResponse listsOnlyEnv ''context unavailable'' (makeBatches sampleCommits) 0
     = Content (Some listsOnlyText)
   \<and> JSON_parse listsOnlyEnv listsOnlyText = Some listsOnlyValue
   \<and> \<not> hasReportShape listsOnlyValue
   \<and> analyzeCommitsWithGPT sampleLiterals listsOnlyEnv sampleCommits
       = Inr \<lparr> summaryValue = [], keyAchievementsValue = [], technicalSkillsValue = [],
              businessImpactValue = [], problemSolvingValue = [], leadershipValue = [] \<rparr>
   \<and> batchResponse emptyObjectEnv ''context unavailable'' (makeBatches sampleCommits) 0
       = Content (Some ''{}'')
   \<and> JSON_parse emptyObjectEnv ''{}'' = Some (JObj [])
   \<and> \<not> hasReportShape (JObj [])
   \<and> analyzeCommitsWithGPT sampleLiterals emptyObjectEnv sampleCommits = Inl TypeError"
proof -
  have "batchResponse listsOnlyEnv ''context unavailable'' (makeBatches sampleCommits) 0
     = Content (Some listsOnlyText)"
    by (simp add: batchResponse_def listsOnlyEnv_def)
  moreover have "JSON_parse listsOnlyEnv listsOnlyText = Some listsOnlyValue"
    by (simp add: listsOnlyEnv_def)
  moreover have "\<not> hasReportShape listsOnlyValue" by code_simp
  moreover have "analyzeCommitsWithGPT sampleLiterals listsOnlyEnv sampleCommits
       = Inr \<lparr> summaryValue = [], keyAchievementsValue = [], technicalSkillsValue = [],
              businessImpactValue = [], problemSolvingValue = [], leadershipValue = [] \<rparr>"
    by code_simp
  moreover have "batchResponse emptyObjectEnv ''context unavailable'' (makeBatches sampleCommits) 0
       = Content (Some ''{}'')"
    by (simp add: batchResponse_def emptyObjectEnv_def)
  moreover have "JSON_parse emptyObjectEnv ''{}'' = Some (JObj [])"
    by (simp add: emptyObjectEnv_def listsOnlyEnv_def listsOnlyText_def)
  moreover have "\<not> hasReportShape (JObj [])" by code_simp
  moreover have "analyzeCommitsWithGPT sampleLiterals emptyObjectEnv sampleCommits = Inl TypeError"
    by code_simp
  ultimately show ?thesis by simp
qed

end
